theory Spec2Isabelle
  imports Complex_Main
begin

section \<open>Values decoded from JSON\<close>

text \<open>
  The webhook body and the status file are JSON documents, decoded by Python's \<open>json\<close>
  module. A decoded value is one of the Python types below. A \<open>dict\<close> is kept as an
  association list read with \<open>map_of\<close>. Text is a \<open>string\<close> whose characters are the
  code points below 256; \<open>str.lower\<close> and \<open>str.strip\<close> are modelled as Python has
  them on these code points.
\<close>

datatype pyfloat = Finite rat | PosInf | NegInf | NaN

datatype json =
    JNull
  | JBool bool
  | JInt int
  | JFloat pyfloat
  | JStr string
  | JArr "json list"
  | JObj "(string \<times> json) list"

datatype py_type = TNoneType | TBool | TInt | TFloat | TStr | TList | TDict

fun type_of :: "json \<Rightarrow> py_type" where
  "type_of JNull = TNoneType"
| "type_of (JBool _) = TBool"
| "type_of (JInt _) = TInt"
| "type_of (JFloat _) = TFloat"
| "type_of (JStr _) = TStr"
| "type_of (JArr _) = TList"
| "type_of (JObj _) = TDict"

text \<open>The exceptions the modelled code can raise; each carries what its message shows.\<close>

datatype exc =
    AttributeError py_type string
  | NotIterable py_type
  | JSONDecodeError string

text \<open>Python truthiness: \<open>None\<close>, \<open>False\<close>, zero, and empty text, list or dict are falsy.\<close>

fun truthy :: "json \<Rightarrow> bool" where
  "truthy JNull = False"
| "truthy (JBool b) = b"
| "truthy (JInt i) = (i \<noteq> 0)"
| "truthy (JFloat f) = (f \<noteq> Finite 0)"
| "truthy (JStr s) = (s \<noteq> [])"
| "truthy (JArr xs) = (xs \<noteq> [])"
| "truthy (JObj kvs) = (kvs \<noteq> [])"

text \<open>\<open>a or b\<close> yields \<open>a\<close> when it is truthy and \<open>b\<close> otherwise.\<close>

definition py_or :: "json \<Rightarrow> json \<Rightarrow> json" where
  "py_or a b = (if truthy a then a else b)"

text \<open>\<open>d.get(k)\<close> on a dict: the value, or \<open>None\<close> for a missing key.\<close>

definition dict_get :: "(string \<times> json) list \<Rightarrow> string \<Rightarrow> json" where
  "dict_get kvs k = (case map_of kvs k of None \<Rightarrow> JNull | Some v \<Rightarrow> v)"

text \<open>\<open>x.get(k)\<close> on any value: only a dict has the attribute.\<close>

fun py_get :: "json \<Rightarrow> string \<Rightarrow> exc + json" where
  "py_get (JObj kvs) k = Inr (dict_get kvs k)"
| "py_get v k = Inl (AttributeError (type_of v) ''get'')"

text \<open>
  What a \<open>for\<close> loop iterates over: the elements of a list, the keys of a dict, the
  characters of a text; anything else is not iterable.
\<close>

fun py_iter :: "json \<Rightarrow> exc + json list" where
  "py_iter (JArr xs) = Inr xs"
| "py_iter (JObj kvs) = Inr (map (\<lambda>kv. JStr (fst kv)) kvs)"
| "py_iter (JStr s) = Inr (map (\<lambda>c. JStr [c]) s)"
| "py_iter v = Inl (NotIterable (type_of v))"

text \<open>
  The letters with a lower-case form: \<open>A\<close> to \<open>Z\<close>, and the Latin-1 capitals
  \<open>0xC0\<close> to \<open>0xDE\<close> without the multiplication sign \<open>0xD7\<close>; each is 32 below its
  lower-case form.
\<close>

definition upper_letters :: string where
  "upper_letters =
     ''ABCDEFGHIJKLMNOPQRSTUVWXYZ'' @
     [CHR 0xC0, CHR 0xC1, CHR 0xC2, CHR 0xC3, CHR 0xC4, CHR 0xC5, CHR 0xC6, CHR 0xC7,
      CHR 0xC8, CHR 0xC9, CHR 0xCA, CHR 0xCB, CHR 0xCC, CHR 0xCD, CHR 0xCE, CHR 0xCF,
      CHR 0xD0, CHR 0xD1, CHR 0xD2, CHR 0xD3, CHR 0xD4, CHR 0xD5, CHR 0xD6, CHR 0xD8,
      CHR 0xD9, CHR 0xDA, CHR 0xDB, CHR 0xDC, CHR 0xDD, CHR 0xDE]"

definition lower_letters :: string where
  "lower_letters =
     ''abcdefghijklmnopqrstuvwxyz'' @
     [CHR 0xE0, CHR 0xE1, CHR 0xE2, CHR 0xE3, CHR 0xE4, CHR 0xE5, CHR 0xE6, CHR 0xE7,
      CHR 0xE8, CHR 0xE9, CHR 0xEA, CHR 0xEB, CHR 0xEC, CHR 0xED, CHR 0xEE, CHR 0xEF,
      CHR 0xF0, CHR 0xF1, CHR 0xF2, CHR 0xF3, CHR 0xF4, CHR 0xF5, CHR 0xF6, CHR 0xF8,
      CHR 0xF9, CHR 0xFA, CHR 0xFB, CHR 0xFC, CHR 0xFD, CHR 0xFE]"

definition lower_char :: "char \<Rightarrow> char" where
  "lower_char c =
     (case map_of (zip upper_letters lower_letters) c of None \<Rightarrow> c | Some d \<Rightarrow> d)"

definition lower :: "string \<Rightarrow> string" where
  "lower s = map lower_char s"

section \<open>csv\_writer.flatten\_callback\_payload\<close>

text \<open>One Result Row: the dict with seven keys that the flattening appends.\<close>

record row =
  uid :: json
  full_name :: json
  status :: json
  linkedin_url :: json
  contact_type :: json
  contact_value :: json
  contact_subtype :: json

text \<open>
  The loop \<open>for s in socials\<close>: the link of the first entry whose lower-cased type is
  \<open>li\<close> or \<open>linkedin\<close>, and \<open>None\<close> when the loop ends without a \<open>break\<close>.
\<close>

fun find_linkedin :: "json list \<Rightarrow> exc + json" where
  "find_linkedin [] = Inr JNull"
| "find_linkedin (s # ss) =
     (case py_get s ''type'' of
        Inl e \<Rightarrow> Inl e
      | Inr t \<Rightarrow>
          (case py_or t (JStr []) of
             JStr ty \<Rightarrow>
               if lower ty \<in> {''li'', ''linkedin''}
               then py_get s ''link''
               else find_linkedin ss
           | v \<Rightarrow> Inl (AttributeError (type_of v) ''lower'')))"

text \<open>The loop \<open>for c in contacts\<close>: one row per contact entry, in order.\<close>

fun contact_rows :: "json \<Rightarrow> json \<Rightarrow> json \<Rightarrow> json \<Rightarrow> json list \<Rightarrow> exc + row list" where
  "contact_rows u fnm st lnk [] = Inr []"
| "contact_rows u fnm st lnk (c # cs) =
     (case c of
        JObj kv \<Rightarrow>
          (case contact_rows u fnm st lnk cs of
             Inl e \<Rightarrow> Inl e
           | Inr rs \<Rightarrow>
               Inr (\<lparr>uid = u, full_name = fnm, status = st, linkedin_url = lnk,
                     contact_type = dict_get kv ''type'',
                     contact_value = dict_get kv ''value'',
                     contact_subtype = py_or (dict_get kv ''subType'') (dict_get kv ''sub_type'')\<rparr>
                    # rs))
      | v \<Rightarrow> Inl (AttributeError (type_of v) ''get''))"

text \<open>The body of the loop \<open>for it in items\<close>: the rows one item appends.\<close>

definition flatten_item :: "json \<Rightarrow> exc + row list" where
  "flatten_item it =
     (case it of
        JObj kv \<Rightarrow>
          (let st = dict_get kv ''status'';
               original_item = dict_get kv ''item''
           in case py_or (dict_get kv ''candidate'') (JObj []) of
                JObj cand \<Rightarrow>
                  (let u = dict_get cand ''uid'';
                       fnm = py_or (dict_get cand ''fullName'') (dict_get cand ''full_name'')
                   in case py_iter (py_or (dict_get cand ''social'') (JArr [])) of
                        Inl e \<Rightarrow> Inl e
                      | Inr socials \<Rightarrow>
                          (case find_linkedin socials of
                             Inl e \<Rightarrow> Inl e
                           | Inr linkedin \<Rightarrow>
                               (let contacts = py_or (dict_get cand ''contacts'') (JArr []);
                                    lnk = py_or linkedin original_item
                                in if truthy contacts
                                   then (case py_iter contacts of
                                           Inl e \<Rightarrow> Inl e
                                         | Inr cs \<Rightarrow> contact_rows u fnm st lnk cs)
                                   else Inr [\<lparr>uid = u, full_name = fnm, status = st,
                                               linkedin_url = lnk,
                                               contact_type = JNull,
                                               contact_value = JNull,
                                               contact_subtype = JNull\<rparr>])))
              | v \<Rightarrow> Inl (AttributeError (type_of v) ''get''))
      | v \<Rightarrow> Inl (AttributeError (type_of v) ''get''))"

text \<open>The loop over the items, with \<open>rows\<close> as the accumulator it appends to.\<close>

fun flatten_items :: "json list \<Rightarrow> row list \<Rightarrow> exc + row list" where
  "flatten_items [] rows = Inr rows"
| "flatten_items (it # its) rows =
     (case flatten_item it of
        Inl e \<Rightarrow> Inl e
      | Inr rs \<Rightarrow> flatten_items its (rows @ rs))"

definition payload_items :: "json \<Rightarrow> json list" where
  "payload_items payload = (case payload of JArr xs \<Rightarrow> xs | v \<Rightarrow> [v])"

definition flatten_callback_payload :: "json \<Rightarrow> exc + row list" where
  "flatten_callback_payload payload =
     (if \<not> truthy payload then Inr []
      else flatten_items (payload_items payload) [])"

section \<open>lib/storage.py\<close>

text \<open>
  The clock reading \<open>datetime.utcnow()\<close> is an input of the model. Python keeps the
  fields of a \<open>datetime\<close> in range.
\<close>

record datetime =
  year :: nat
  month :: nat
  day :: nat
  hour :: nat
  minute :: nat
  second :: nat
  microsecond :: nat

definition valid_datetime :: "datetime \<Rightarrow> bool" where
  "valid_datetime t =
     (1 \<le> year t \<and> year t \<le> 9999 \<and> 1 \<le> month t \<and> month t \<le> 12 \<and>
      1 \<le> day t \<and> day t \<le> 31 \<and> hour t < 24 \<and> minute t < 60 \<and> second t < 60 \<and>
      microsecond t < 1000000)"

definition digit_char :: "nat \<Rightarrow> char" where
  "digit_char d = ''0123456789'' ! (d mod 10)"

text \<open>\<open>dec w n\<close>: the \<open>w\<close> low decimal digits of \<open>n\<close>, as \<open>%02d\<close> and \<open>%06d\<close> print a field in range.\<close>

fun dec :: "nat \<Rightarrow> nat \<Rightarrow> string" where
  "dec 0 n = []"
| "dec (Suc w) n = dec w (n div 10) @ [digit_char n]"

definition strftime :: "datetime \<Rightarrow> string" where
  \<comment> \<open>the format \<open>%Y%m%d_%H%M%S%f\<close>\<close>
  "strftime t =
     dec 4 (year t) @ dec 2 (month t) @ dec 2 (day t) @ ''_'' @
     dec 2 (hour t) @ dec 2 (minute t) @ dec 2 (second t) @ dec 6 (microsecond t)"

definition new_batch_id :: "datetime \<Rightarrow> string" where
  \<comment> \<open>\<open>now[-8:]\<close>\<close>
  "new_batch_id now = (let s = strftime now in drop (length s - 8) s)"

text \<open>
  One entry of a batch's error list: \<open>{"item", "error"}\<close> from the submission loop,
  \<open>{"email_error"}\<close> and \<open>{"callback_error"}\<close> from the callback handler.
\<close>

datatype error_entry =
    ItemError string json
  | EmailError string
  | CallbackError string

text \<open>What \<open>submit_identifier\<close> returns (the provider is outside the model).\<close>

record submit_result =
  success :: bool
  request_id :: "string option"
  error :: json
  diagnostics :: json

text \<open>
  The status dict of a batch, as it is written to and read from \<open>status.json\<close>. A key
  that is absent is \<open>None\<close>: \<open>read_status\<close> yields the empty dict for a batch without a
  status file, and the callback handler reads every key with a default.
\<close>

record batch_status =
  st_status :: "string option"
  st_email :: "string option"
  st_total_items :: "nat option"
  st_pending :: "string list option"
  st_received :: "int option"
  st_errors :: "error_entry list option"
  st_submissions :: "(string \<times> submit_result) list option"

definition empty_status :: batch_status where
  "empty_status =
     \<lparr>st_status = None, st_email = None, st_total_items = None, st_pending = None,
      st_received = None, st_errors = None, st_submissions = None\<rparr>"

text \<open>The mails handed to the SMTP collaborator: recipient, batch id, and the error text.\<close>

datatype mail =
    ResultEmail string string
  | ErrorEmail string string string

text \<open>
  The files under \<open>DATA_ROOT\<close>, and the mails sent so far. \<open>requests\<close> holds the text of
  \<open>requests/<request_id>.txt\<close>; the other maps hold, per batch id, the content of
  \<open>status.json\<close>, \<open>results.json\<close> (a dict from request id to raw payload),
  \<open>results.csv\<close> (its rows, below the header line) and \<open>original.csv\<close>. Request
  ids and batch ids are taken to be valid file names; input and output errors of the file
  system are outside the model.
\<close>

record world =
  requests :: "string \<rightharpoonup> string"
  status_files :: "string \<rightharpoonup> batch_status"
  results_json :: "string \<rightharpoonup> (string \<rightharpoonup> json)"
  results_csv :: "string \<rightharpoonup> row list"
  original_csv :: "string \<rightharpoonup> string"
  outbox :: "mail list"

definition save_original_csv :: "string \<Rightarrow> string \<Rightarrow> world \<Rightarrow> world" where
  "save_original_csv batch_id content w =
     w\<lparr>original_csv := (original_csv w)(batch_id \<mapsto> content)\<rparr>"

definition write_status :: "string \<Rightarrow> batch_status \<Rightarrow> world \<Rightarrow> world" where
  "write_status batch_id st w = w\<lparr>status_files := (status_files w)(batch_id \<mapsto> st)\<rparr>"

definition read_status :: "string \<Rightarrow> world \<Rightarrow> batch_status" where
  "read_status batch_id w =
     (case status_files w batch_id of None \<Rightarrow> empty_status | Some st \<Rightarrow> st)"

definition map_request_to_batch :: "string \<Rightarrow> string \<Rightarrow> world \<Rightarrow> world" where
  "map_request_to_batch rid batch_id w = w\<lparr>requests := (requests w)(rid \<mapsto> batch_id)\<rparr>"

text \<open>
  The white space \<open>str.strip\<close> removes: tab to carriage return, the four separators
  \<open>0x1C\<close> to \<open>0x1F\<close>, the space, next line \<open>0x85\<close> and the no-break space \<open>0xA0\<close>.
\<close>

definition is_space :: "char \<Rightarrow> bool" where
  "is_space c =
     (c \<in> {CHR 0x09, CHR 0x0A, CHR 0x0B, CHR 0x0C, CHR 0x0D,
            CHR 0x1C, CHR 0x1D, CHR 0x1E, CHR 0x1F, CHR 0x20, CHR 0x85, CHR 0xA0})"

definition strip :: "string \<Rightarrow> string" where
  "strip s = rev (dropWhile is_space (rev (dropWhile is_space s)))"

definition find_batch_by_request :: "string \<Rightarrow> world \<Rightarrow> string option" where
  "find_batch_by_request rid w =
     (case requests w rid of None \<Rightarrow> None | Some txt \<Rightarrow> Some (strip txt))"

definition append_results_json :: "string \<Rightarrow> string \<Rightarrow> json \<Rightarrow> world \<Rightarrow> world" where
  "append_results_json batch_id rid payload w =
     (let data = (case results_json w batch_id of None \<Rightarrow> Map.empty | Some d \<Rightarrow> d);
          data' = (case data rid of None \<Rightarrow> data(rid \<mapsto> payload) | Some _ \<Rightarrow> data)
      in w\<lparr>results_json := (results_json w)(batch_id \<mapsto> data')\<rparr>)"

definition append_results_csv :: "string \<Rightarrow> row list \<Rightarrow> world \<Rightarrow> world" where
  "append_results_csv batch_id rows w =
     (if rows = [] then w
      else w\<lparr>results_csv := (results_csv w)
             (batch_id \<mapsto> (case results_csv w batch_id of None \<Rightarrow> [] | Some old \<Rightarrow> old) @ rows)\<rparr>)"

section \<open>app.py\<close>

text \<open>
  An incoming webhook delivery: the \<open>Request-Id\<close> header (header names are matched
  without regard to case, so the two spellings the handler tries are one header), and
  what \<open>request.json()\<close> makes of the body: the decoded payload, or the decoder's
  message when the body does not parse.
\<close>

record request =
  header_request_id :: "string option"
  body :: "string + json"

datatype response =
    Accepted_unknown
  | Accepted_batch string
  | Accepted_upload string nat nat
  | HTTPException nat string

text \<open>\<open>str(e)\<close> of a raised exception.\<close>

fun type_name :: "py_type \<Rightarrow> string" where
  "type_name TNoneType = ''NoneType''"
| "type_name TBool = ''bool''"
| "type_name TInt = ''int''"
| "type_name TFloat = ''float''"
| "type_name TStr = ''str''"
| "type_name TList = ''list''"
| "type_name TDict = ''dict''"

fun exc_str :: "exc \<Rightarrow> string" where
  "exc_str (AttributeError t a) =
     [CHR 0x27] @ type_name t @ [CHR 0x27] @ '' object has no attribute '' @
     [CHR 0x27] @ a @ [CHR 0x27]"
| "exc_str (NotIterable t) = [CHR 0x27] @ type_name t @ [CHR 0x27] @ '' object is not iterable''"
| "exc_str (JSONDecodeError msg) = msg"

text \<open>The reads with a default: \<open>status.get("pending", [])\<close> and its like.\<close>

definition pending_of :: "batch_status \<Rightarrow> string list" where
  "pending_of st = (case st_pending st of None \<Rightarrow> [] | Some p \<Rightarrow> p)"

definition received_of :: "batch_status \<Rightarrow> int" where
  "received_of st = (case st_received st of None \<Rightarrow> 0 | Some n \<Rightarrow> n)"

definition errors_of :: "batch_status \<Rightarrow> error_entry list" where
  "errors_of st = (case st_errors st of None \<Rightarrow> [] | Some es \<Rightarrow> es)"

definition submissions_of :: "batch_status \<Rightarrow> (string \<times> submit_result) list" where
  "submissions_of st = (case st_submissions st of None \<Rightarrow> [] | Some ss \<Rightarrow> ss)"

subsection \<open>upload\<close>

text \<open>
  The rows are what \<open>csv.reader\<close> yields for the uploaded file, taken as decoded; a
  row's first cell is kept when, stripped, it starts with \<open>http\<close> in any letter case.
\<close>

fun parse_urls :: "string list list \<Rightarrow> string list" where
  "parse_urls [] = []"
| "parse_urls ([] # rows) = parse_urls rows"
| "parse_urls ((cell # cells) # rows) =
     (let url = strip cell
      in if url \<noteq> [] \<and> take 4 (lower url) = ''http''
         then url # parse_urls rows else parse_urls rows)"

text \<open>
  The body of the submission loop, for one url and the provider's answer to it. The
  status dict lives in memory during the loop; only the Correlation Index is written.
\<close>

definition upload_step ::
    "string \<Rightarrow> string \<Rightarrow> submit_result \<Rightarrow> world \<times> batch_status \<Rightarrow> world \<times> batch_status" where
  "upload_step batch_id url resp ws =
     (let w = fst ws;
          st = snd ws;
          st1 = st\<lparr>st_submissions := Some (submissions_of st @ [(url, resp)])\<rparr>
      in if \<not> success resp
         then (w, st1\<lparr>st_errors := Some (errors_of st1 @ [ItemError url (error resp)])\<rparr>)
         else (case request_id resp of
                 None \<Rightarrow> (w, st1)
               | Some rid \<Rightarrow>
                   if rid = [] then (w, st1)
                   else (map_request_to_batch rid batch_id w,
                         st1\<lparr>st_pending := Some (pending_of st1 @ [rid])\<rparr>)))"

text \<open>The loop \<open>for url in urls\<close>; \<open>submit k url\<close> is the provider's answer to call \<open>k\<close>.\<close>

fun upload_loop ::
    "(nat \<Rightarrow> string \<Rightarrow> submit_result) \<Rightarrow> string \<Rightarrow> nat \<Rightarrow> string list \<Rightarrow>
     world \<times> batch_status \<Rightarrow> world \<times> batch_status" where
  "upload_loop submit batch_id k [] ws = ws"
| "upload_loop submit batch_id k (url # urls) ws =
     upload_loop submit batch_id (Suc k) urls (upload_step batch_id url (submit k url) ws)"

text \<open>
  The status dict before the loop, and the handler. Its answer carries the batch id, the
  number of pending ids and the number of errors (the callback address is left out).
\<close>

definition initial_status :: "string \<Rightarrow> nat \<Rightarrow> batch_status" where
  "initial_status user_email n =
     \<lparr>st_status = Some ''processing'', st_email = Some user_email, st_total_items = Some n,
      st_pending = Some [], st_received = Some 0, st_errors = Some [],
      st_submissions = Some []\<rparr>"

definition upload ::
    "datetime \<Rightarrow> (nat \<Rightarrow> string \<Rightarrow> submit_result) \<Rightarrow> string \<Rightarrow> string list list \<Rightarrow> string \<Rightarrow>
     world \<Rightarrow> response \<times> world" where
  "upload now submit content rows user_email w =
     (let batch_id = new_batch_id now;
          w1 = save_original_csv batch_id content w;
          urls = parse_urls rows
      in if urls = [] then (HTTPException 400 ''No LinkedIn URLs found in CSV'', w1)
         else (let ws = upload_loop submit batch_id 0 urls
                          (w1, initial_status user_email (length urls));
                   st = snd ws
               in (Accepted_upload batch_id (length (pending_of st)) (length (errors_of st)),
                   write_status batch_id st (fst ws))))"

subsection \<open>callback\<close>

text \<open>
  Lines 176 to 200 of the handler: remove the request id from the pending list, count
  the callback, and when nothing is pending mark the batch complete and mail the
  results. \<open>smtp m\<close> is the outcome of handing \<open>m\<close> to the mail server: \<open>None\<close> when it
  is sent, the error text when sending raises.
\<close>

definition update_status :: "(mail \<Rightarrow> string option) \<Rightarrow> string \<Rightarrow> string \<Rightarrow> world \<Rightarrow> world" where
  "update_status smtp batch_id rid w =
     (let st = read_status batch_id w;
          pending = (if rid \<in> set (pending_of st) then remove1 rid (pending_of st)
                     else pending_of st);
          st1 = st\<lparr>st_pending := Some pending, st_received := Some (received_of st + 1)\<rparr>
      in if pending = []
         then (let st2 = st1\<lparr>st_status := Some ''complete''\<rparr>;
                   w1 = write_status batch_id st2 w
               in case st_email st2 of
                    None \<Rightarrow> w1
                  | Some user_email \<Rightarrow>
                      if user_email \<noteq> [] \<and> results_csv w1 batch_id \<noteq> None
                      then (let m = ResultEmail user_email batch_id;
                                w2 = w1\<lparr>outbox := outbox w1 @ [m]\<rparr>
                            in case smtp m of
                                 None \<Rightarrow> w2
                               | Some msg \<Rightarrow>
                                   write_status batch_id
                                     (st2\<lparr>st_errors := Some (errors_of st2 @ [EmailError msg])\<rparr>)
                                     w2)
                      else w1)
         else write_status batch_id st1 w)"

text \<open>
  The \<open>try\<close> block after the header check. The world comes back also when an exception
  is raised, with what was written before it.
\<close>

definition callback_try ::
    "(mail \<Rightarrow> string option) \<Rightarrow> string \<Rightarrow> request \<Rightarrow> world \<Rightarrow> (exc + response) \<times> world" where
  "callback_try smtp rid req w =
     (case body req of
        Inl msg \<Rightarrow> (Inl (JSONDecodeError msg), w)
      | Inr payload \<Rightarrow>
          (case find_batch_by_request rid w of
             None \<Rightarrow> (Inr Accepted_unknown, w)
           | Some batch_id \<Rightarrow>
               if batch_id = [] then (Inr Accepted_unknown, w)
               else (let w1 = append_results_json batch_id rid payload w
                     in case flatten_callback_payload payload of
                          Inl e \<Rightarrow> (Inl e, w1)
                        | Inr rows \<Rightarrow>
                            (Inr (Accepted_batch batch_id),
                             update_status smtp batch_id rid
                               (append_results_csv batch_id rows w1)))))"

text \<open>
  The handler of \<open>except Exception\<close>: record the error on the batch the request id
  resolves to, and mail it to the batch's address; whatever the mail does is ignored.
\<close>

definition callback_except :: "string \<Rightarrow> exc \<Rightarrow> world \<Rightarrow> world" where
  "callback_except rid e w =
     (case find_batch_by_request rid w of
        None \<Rightarrow> w
      | Some batch_id \<Rightarrow>
          if batch_id = [] then w
          else (let st = read_status batch_id w;
                    st1 = st\<lparr>st_errors := Some (errors_of st @ [CallbackError (exc_str e)])\<rparr>;
                    w1 = write_status batch_id st1 w
                in case st_email st1 of
                     None \<Rightarrow> w1
                   | Some user_email \<Rightarrow>
                       if user_email \<noteq> []
                       then w1\<lparr>outbox := outbox w1 @
                                   [ErrorEmail user_email batch_id (exc_str e)]\<rparr>
                       else w1))"

definition callback :: "(mail \<Rightarrow> string option) \<Rightarrow> request \<Rightarrow> world \<Rightarrow> response \<times> world" where
  "callback smtp req w =
     (case header_request_id req of
        None \<Rightarrow> (HTTPException 400 ''Missing Request-Id header'', w)
      | Some rid \<Rightarrow>
          if rid = [] then (HTTPException 400 ''Missing Request-Id header'', w)
          else (case callback_try smtp rid req w of
                  (Inr resp, w1) \<Rightarrow> (resp, w1)
                | (Inl e, w1) \<Rightarrow> (HTTPException 500 (exc_str e), callback_except rid e w1)))"

text \<open>A sequence of deliveries handled one after the other, and the worlds it passes through.\<close>

fun deliver :: "((mail \<Rightarrow> string option) \<times> request) list \<Rightarrow> world \<Rightarrow> world" where
  "deliver [] w = w"
| "deliver (d # ds) w = deliver ds (snd (callback (fst d) (snd d) w))"

fun trace :: "((mail \<Rightarrow> string option) \<times> request) list \<Rightarrow> world \<Rightarrow> world list" where
  "trace [] w = [w]"
| "trace (d # ds) w = w # trace ds (snd (callback (fst d) (snd d) w))"

section \<open>Notions used to state the properties\<close>

subsection \<open>Flattening\<close>

definition is_dict :: "json \<Rightarrow> bool" where
  "is_dict v = (case v of JObj _ \<Rightarrow> True | _ \<Rightarrow> False)"

text \<open>A key of a value that is a dict, and the elements of a value that is a list.\<close>

definition field :: "json \<Rightarrow> string \<Rightarrow> json" where
  "field v k = (case v of JObj kv \<Rightarrow> dict_get kv k | _ \<Rightarrow> JNull)"

definition elements :: "json \<Rightarrow> json list" where
  "elements v = (case v of JArr xs \<Rightarrow> xs | _ \<Rightarrow> [])"

text \<open>
  The flattening rule in the words of the specification: the contact entries an item's
  candidate carries, the social-profile entries whose type marks them as LinkedIn, and
  the links such entries have.
\<close>

definition spec_contacts :: "json \<Rightarrow> json list" where
  "spec_contacts it = elements (field (field it ''candidate'') ''contacts'')"

definition linkedin_typed :: "json \<Rightarrow> bool" where
  "linkedin_typed s =
     (case field s ''type'' of JStr ty \<Rightarrow> lower ty \<in> {''li'', ''linkedin''} | _ \<Rightarrow> False)"

definition spec_linkedin_links :: "json \<Rightarrow> json list" where
  "spec_linkedin_links it =
     filter truthy
       (map (\<lambda>s. field s ''link'')
          (filter linkedin_typed (elements (field (field it ''candidate'') ''social''))))"

text \<open>
  The items of a payload: the elements of a list; a payload that is not a list is one
  item; an empty payload has none.
\<close>

definition spec_items :: "json \<Rightarrow> json list" where
  "spec_items payload =
     (case payload of JArr xs \<Rightarrow> xs | v \<Rightarrow> if truthy v then [v] else [])"

text \<open>
  The rule as it holds of the code. Of the LinkedIn-typed entries only the first counts:
  its link, when it has one, is the display link; otherwise the submitted identifier is.
\<close>

definition first_linkedin_link :: "json \<Rightarrow> json" where
  "first_linkedin_link it =
     (case find linkedin_typed (elements (field (field it ''candidate'') ''social'')) of
        None \<Rightarrow> JNull | Some s \<Rightarrow> field s ''link'')"

definition display_link :: "json \<Rightarrow> json" where
  "display_link it =
     (if truthy (first_linkedin_link it) then first_linkedin_link it else field it ''item'')"

text \<open>
  The rows of one item: with \<open>n \<ge> 1\<close> contacts, \<open>n\<close> rows, the \<open>j\<close>-th from the \<open>j\<close>-th
  contact; with no contact, one row with null contact fields; every row shows the
  display link and the item's status.
\<close>

definition item_rows :: "json \<Rightarrow> row list \<Rightarrow> bool" where
  "item_rows it rs =
     (let cs = spec_contacts it in
      (if cs \<noteq> []
       then length rs = length cs \<and>
            (\<forall>j < length cs.
               contact_type (rs ! j) = field (cs ! j) ''type'' \<and>
               contact_value (rs ! j) = field (cs ! j) ''value'' \<and>
               contact_subtype (rs ! j) =
                 py_or (field (cs ! j) ''subType'') (field (cs ! j) ''sub_type''))
       else length rs = 1 \<and>
            (\<forall>r \<in> set rs. contact_type r = JNull \<and> contact_value r = JNull \<and>
                            contact_subtype r = JNull)) \<and>
      (\<forall>r \<in> set rs. linkedin_url r = display_link it \<and> status r = field it ''status''))"

text \<open>
  Items of the expected shape: a dict whose candidate, when present, is a dict whose
  \<open>social\<close> and \<open>contacts\<close>, when present, are lists of dicts, each social entry with a
  textual or absent type.
\<close>

definition wf_social :: "json \<Rightarrow> bool" where
  "wf_social s =
     (case s of
        JObj kv \<Rightarrow> (case dict_get kv ''type'' of JStr _ \<Rightarrow> True | v \<Rightarrow> \<not> truthy v)
      | _ \<Rightarrow> False)"

definition wf_list_of :: "(json \<Rightarrow> bool) \<Rightarrow> json \<Rightarrow> bool" where
  "wf_list_of P v = (case v of JArr xs \<Rightarrow> list_all P xs | _ \<Rightarrow> \<not> truthy v)"

definition wf_candidate :: "json \<Rightarrow> bool" where
  "wf_candidate c =
     (case c of
        JObj cand \<Rightarrow> wf_list_of wf_social (dict_get cand ''social'') \<and>
                     wf_list_of is_dict (dict_get cand ''contacts'')
      | _ \<Rightarrow> \<not> truthy c)"

definition wf_item :: "json \<Rightarrow> bool" where
  "wf_item it = (case it of JObj kv \<Rightarrow> wf_candidate (dict_get kv ''candidate'') | _ \<Rightarrow> False)"

definition example_items :: "json list" where
  "example_items =
     [JObj [(''item'', JStr ''https://www.linkedin.com/in/a''), (''status'', JStr ''success''),
            (''candidate'', JObj
               [(''uid'', JStr ''u1''), (''fullName'', JStr ''Ada''),
                (''social'',
                   JArr [JObj [(''type'', JStr ''fb''), (''link'', JStr ''https://fb.com/a'')],
                         JObj [(''type'', JStr ''LI''),
                               (''link'', JStr ''https://linkedin.com/in/ada'')]]),
                (''contacts'',
                   JArr [JObj [(''type'', JStr ''email''), (''value'', JStr ''a@x.org'')],
                         JObj [(''type'', JStr ''phone''), (''value'', JStr ''555'')]])])],
      JObj [(''item'', JStr ''https://www.linkedin.com/in/b''), (''status'', JStr ''failed'')]]"

definition example_object :: json where
  "example_object =
     JObj [(''item'', JStr ''https://www.linkedin.com/in/b''), (''status'', JStr ''failed'')]"

text \<open>An item with two LinkedIn-typed entries, the first without a link.\<close>

definition two_profiles_item :: json where
  "two_profiles_item =
     JObj [(''item'', JStr ''https://www.linkedin.com/in/a''), (''status'', JStr ''success''),
           (''candidate'', JObj
              [(''social'',
                  JArr [JObj [(''type'', JStr ''linkedin'')],
                        JObj [(''type'', JStr ''li''),
                              (''link'', JStr ''https://linkedin.com/in/ada'')]])])]"

subsection \<open>Batches and deliveries\<close>

text \<open>The batch a delivery is handled for: the one its request id resolves to, if any.\<close>

definition resolve_delivery :: "request \<Rightarrow> world \<Rightarrow> string option" where
  "resolve_delivery req w =
     (case header_request_id req of
        None \<Rightarrow> None
      | Some rid \<Rightarrow>
          if rid = [] then None
          else (case find_batch_by_request rid w of
                  None \<Rightarrow> None
                | Some b \<Rightarrow> if b = [] then None else Some b))"

text \<open>The rows of a batch's result table; none while \<open>results.csv\<close> does not exist.\<close>

definition table_of :: "string \<Rightarrow> world \<Rightarrow> row list" where
  "table_of b w = (case results_csv w b of None \<Rightarrow> [] | Some rs \<Rightarrow> rs)"

fun is_callback_error :: "error_entry \<Rightarrow> bool" where
  "is_callback_error (CallbackError _) = True"
| "is_callback_error _ = False"

definition callback_errors :: "batch_status \<Rightarrow> int" where
  "callback_errors st = int (length (filter is_callback_error (errors_of st)))"

fun is_result_mail :: "string \<Rightarrow> mail \<Rightarrow> bool" where
  "is_result_mail b (ResultEmail _ b') = (b' = b)"
| "is_result_mail b _ = False"

text \<open>How often the Completion Notifier has been invoked for a batch.\<close>

definition result_mails :: "string \<Rightarrow> world \<Rightarrow> nat" where
  "result_mails b w = length (filter (is_result_mail b) (outbox w))"

text \<open>The batch's record names an address: \<open>status.get("email")\<close> is truthy.\<close>

definition has_address :: "batch_status \<Rightarrow> bool" where
  "has_address st = (case st_email st of None \<Rightarrow> False | Some a \<Rightarrow> a \<noteq> [])"

definition is_complete :: "string \<Rightarrow> world \<Rightarrow> bool" where
  "is_complete b w = (st_status (read_status b w) = Some ''complete'')"

text \<open>How often a batch goes from not complete to complete along a list of worlds.\<close>

fun completions :: "string \<Rightarrow> world list \<Rightarrow> nat" where
  "completions b (w # w' # ws) =
     (if \<not> is_complete b w \<and> is_complete b w' then 1 else 0) + completions b (w' # ws)"
| "completions b ws = 0"

text \<open>
  Deliveries without redelivery for a batch: the request ids of the deliveries handled
  for the batch are pairwise distinct, and each is pending.
\<close>

definition batch_tokens :: "string \<Rightarrow> ((mail \<Rightarrow> string option) \<times> request) list \<Rightarrow> world \<Rightarrow> string list" where
  "batch_tokens b ds w =
     map (\<lambda>d. case header_request_id (snd d) of None \<Rightarrow> [] | Some rid \<Rightarrow> rid)
       (filter (\<lambda>d. resolve_delivery (snd d) w = Some b) ds)"

definition no_redelivery :: "string \<Rightarrow> ((mail \<Rightarrow> string option) \<times> request) list \<Rightarrow> world \<Rightarrow> bool" where
  "no_redelivery b ds w =
     (distinct (batch_tokens b ds w) \<and>
      set (batch_tokens b ds w) \<subseteq> set (pending_of (read_status b w)))"

subsection \<open>A clock reading, a batch of one and a batch of two, for the examples\<close>

definition noon :: datetime where
  "noon = \<lparr>year = 2025, month = 3, day = 9, hour = 12, minute = 0, second = 7,
           microsecond = 123456\<rparr>"

definition empty_world :: world where
  "empty_world =
     \<lparr>requests = Map.empty, status_files = Map.empty, results_json = Map.empty,
      results_csv = Map.empty, original_csv = Map.empty, outbox = []\<rparr>"


definition smtp_ok :: "mail \<Rightarrow> string option" where
  "smtp_ok m = None"

definition payload_for :: "string \<Rightarrow> json" where
  "payload_for url = JArr [JObj [(''item'', JStr url), (''status'', JStr ''failed'')]]"

definition delivery :: "string \<Rightarrow> string \<Rightarrow> request" where
  "delivery rid url = \<lparr>header_request_id = Some rid, body = Inr (payload_for url)\<rparr>"

definition world1 :: world where
  "world1 =
     empty_world
       \<lparr>requests := [''r1'' \<mapsto> ''b1''],
        status_files := [''b1'' \<mapsto>
          (initial_status ''ada@x.org'' 1)\<lparr>st_pending := Some [''r1'']\<rparr>]\<rparr>"

definition world2 :: world where
  "world2 =
     empty_world
       \<lparr>requests := [''r1'' \<mapsto> ''b1'', ''r2'' \<mapsto> ''b1''],
        status_files := [''b1'' \<mapsto>
          (initial_status ''ada@x.org'' 2)\<lparr>st_pending := Some [''r1'', ''r2'']\<rparr>]\<rparr>"

text \<open>Deliveries, and the batch of one after its callback came once and twice.\<close>

definition d1 :: request where
  "d1 = delivery ''r1'' ''https://www.linkedin.com/in/a''"

definition world1_once :: world where
  "world1_once = snd (callback smtp_ok d1 world1)"

definition world1_twice :: world where
  "world1_twice = snd (callback smtp_ok d1 world1_once)"

definition d_bad :: request where
  "d_bad = \<lparr>header_request_id = Some ''r1'', body = Inl ''Expecting value: line 1 column 1 (char 0)''\<rparr>"


definition d_stray_bad :: request where
  "d_stray_bad =
     \<lparr>header_request_id = Some ''r9'', body = Inl ''Expecting value: line 1 column 1 (char 0)''\<rparr>"

definition d2 :: request where
  "d2 = delivery ''r2'' ''https://www.linkedin.com/in/b''"




section \<open>Properties of the flattening\<close>

lemma lower_Nil [simp]: "lower [] = []"
  by (simp add: lower_def)

lemma linkedin_typed_step:
  "py_or (dict_get kv ''type'') (JStr []) = JStr ty \<Longrightarrow>
   linkedin_typed (JObj kv) = (lower ty \<in> {''li'', ''linkedin''})"
  by (cases "dict_get kv ''type''") (auto simp: linkedin_typed_def field_def py_or_def split: if_splits)

lemma field_JObj [simp]: "field (JObj kv) k = dict_get kv k"
  by (simp add: field_def)

lemma find_linkedin_spec:
  "find_linkedin ss = Inr l \<Longrightarrow> l = (case find linkedin_typed ss of None \<Rightarrow> JNull | Some s \<Rightarrow> field s ''link'')"
proof (induction ss)
  case Nil then show ?case by simp
next
  case (Cons s ss)
  show ?case
  proof (cases s)
    case (JObj kv)
    show ?thesis
    proof (cases "py_or (dict_get kv ''type'') (JStr [])")
      case (JStr ty)
      from linkedin_typed_step [OF JStr] Cons JObj JStr show ?thesis
        by (auto split: if_splits)
    qed (use Cons JObj in auto)
  qed (use Cons in auto)
qed

lemma contact_rows_spec:
  "contact_rows u fnm st lnk cs = Inr rs \<Longrightarrow>
   rs = map (\<lambda>c. \<lparr>uid = u, full_name = fnm, status = st, linkedin_url = lnk,
                   contact_type = field c ''type'', contact_value = field c ''value'',
                   contact_subtype = py_or (field c ''subType'') (field c ''sub_type'')\<rparr>) cs"
proof (induction cs arbitrary: rs)
  case Nil then show ?case by simp
next
  case (Cons c cs)
  then show ?case
    by (cases c) (auto simp: field_def split: sum.splits)
qed


lemma candidate_field:
  "py_or c (JObj []) = JObj cand \<Longrightarrow> field c k = dict_get cand k"
  by (cases c) (auto simp: py_or_def field_def dict_get_def split: if_splits)

lemma socials_elements:
  "py_iter (py_or v (JArr [])) = Inr ss \<Longrightarrow> find_linkedin ss = Inr l \<Longrightarrow> ss = elements v"
  by (cases v; cases ss) (auto simp: py_or_def elements_def split: if_splits)

lemma contacts_elements:
  "truthy v \<Longrightarrow> py_iter v = Inr cs \<Longrightarrow> contact_rows u fnm st lnk cs = Inr rs \<Longrightarrow>
   cs = elements v \<and> cs \<noteq> []"
  by (cases v; cases cs) (auto simp: elements_def)

lemma falsy_elements: "\<not> truthy v \<Longrightarrow> elements v = []"
  by (cases v) (auto simp: elements_def)

lemma flatten_item_cases:
  assumes "flatten_item it = Inr rs"
  obtains kv cand ss l where
    "it = JObj kv"
    "py_or (dict_get kv ''candidate'') (JObj []) = JObj cand"
    "py_iter (py_or (dict_get cand ''social'') (JArr [])) = Inr ss"
    "find_linkedin ss = Inr l"
    "(truthy (dict_get cand ''contacts'') \<and>
        (\<exists>cs. py_iter (dict_get cand ''contacts'') = Inr cs \<and>
           contact_rows (dict_get cand ''uid'')
             (py_or (dict_get cand ''fullName'') (dict_get cand ''full_name''))
             (dict_get kv ''status'') (py_or l (dict_get kv ''item'')) cs = Inr rs)) \<or>
     (\<not> truthy (dict_get cand ''contacts'') \<and>
        rs = [\<lparr>uid = dict_get cand ''uid'',
               full_name = py_or (dict_get cand ''fullName'') (dict_get cand ''full_name''),
               status = dict_get kv ''status'',
               linkedin_url = py_or l (dict_get kv ''item''),
               contact_type = JNull, contact_value = JNull, contact_subtype = JNull\<rparr>])"
  using assms unfolding flatten_item_def Let_def
  by (auto split: json.splits sum.splits if_splits simp: py_or_def)


lemma flatten_item_spec:
  assumes "flatten_item it = Inr rs"
  shows "item_rows it rs"
proof -
  from assms obtain kv cand ss l where
    it: "it = JObj kv" and
    cand: "py_or (dict_get kv ''candidate'') (JObj []) = JObj cand" and
    ss: "py_iter (py_or (dict_get cand ''social'') (JArr [])) = Inr ss" and
    l: "find_linkedin ss = Inr l" and
    rows: "(truthy (dict_get cand ''contacts'') \<and>
        (\<exists>cs. py_iter (dict_get cand ''contacts'') = Inr cs \<and>
           contact_rows (dict_get cand ''uid'')
             (py_or (dict_get cand ''fullName'') (dict_get cand ''full_name''))
             (dict_get kv ''status'') (py_or l (dict_get kv ''item'')) cs = Inr rs)) \<or>
     (\<not> truthy (dict_get cand ''contacts'') \<and>
        rs = [\<lparr>uid = dict_get cand ''uid'',
               full_name = py_or (dict_get cand ''fullName'') (dict_get cand ''full_name''),
               status = dict_get kv ''status'',
               linkedin_url = py_or l (dict_get kv ''item''),
               contact_type = JNull, contact_value = JNull, contact_subtype = JNull\<rparr>])"
    by (rule flatten_item_cases)
  have soc: "elements (field (field it ''candidate'') ''social'') = ss"
    using socials_elements [OF ss l] candidate_field [OF cand] it by simp
  have link: "first_linkedin_link it = l"
    using find_linkedin_spec [OF l] soc by (simp add: first_linkedin_link_def)
  have disp: "display_link it = py_or l (dict_get kv ''item'')"
    using link it by (simp add: display_link_def py_or_def)
  have con: "spec_contacts it = elements (dict_get cand ''contacts'')"
    using candidate_field [OF cand] it by (simp add: spec_contacts_def)
  from rows show ?thesis
  proof (elim disjE conjE exE)
    fix cs
    assume t: "truthy (dict_get cand ''contacts'')"
      and i: "py_iter (dict_get cand ''contacts'') = Inr cs"
      and r: "contact_rows (dict_get cand ''uid'')
             (py_or (dict_get cand ''fullName'') (dict_get cand ''full_name''))
             (dict_get kv ''status'') (py_or l (dict_get kv ''item'')) cs = Inr rs"
    from contacts_elements [OF t i r] con have cs: "spec_contacts it = cs" "cs \<noteq> []"
      by auto
    from contact_rows_spec [OF r] cs disp it show ?thesis
      by (auto simp: item_rows_def)
  next
    assume t: "\<not> truthy (dict_get cand ''contacts'')"
      and r: "rs = [\<lparr>uid = dict_get cand ''uid'',
               full_name = py_or (dict_get cand ''fullName'') (dict_get cand ''full_name''),
               status = dict_get kv ''status'',
               linkedin_url = py_or l (dict_get kv ''item''),
               contact_type = JNull, contact_value = JNull, contact_subtype = JNull\<rparr>]"
    from falsy_elements [OF t] con have "spec_contacts it = []" by simp
    with r disp it show ?thesis
      by (simp add: item_rows_def)
  qed
qed

lemma flatten_item_nonempty: "flatten_item it = Inr rs \<Longrightarrow> rs \<noteq> []"
  using flatten_item_spec [of it rs] by (auto simp: item_rows_def Let_def split: if_splits)

lemma flatten_items_concat:
  "flatten_items its acc = Inr rows \<Longrightarrow>
   \<exists>rss. list_all2 (\<lambda>it rs. flatten_item it = Inr rs) its rss \<and> rows = acc @ concat rss"
proof (induction its arbitrary: acc)
  case Nil
  then show ?case by simp
next
  case (Cons it its)
  from Cons.prems obtain rs where rs: "flatten_item it = Inr rs"
    and rest: "flatten_items its (acc @ rs) = Inr rows"
    by (auto split: sum.splits)
  from Cons.IH [OF rest] obtain rss where
    "list_all2 (\<lambda>it rs. flatten_item it = Inr rs) its rss" "rows = (acc @ rs) @ concat rss"
    by blast
  with rs have "list_all2 (\<lambda>it rs. flatten_item it = Inr rs) (it # its) (rs # rss) \<and>
    rows = acc @ concat (rs # rss)" by simp
  then show ?case by blast
qed

lemma contact_rows_total:
  "list_all is_dict cs \<Longrightarrow> \<exists>rs. contact_rows u fnm st lnk cs = Inr rs"
  by (induction cs) (auto simp: is_dict_def split: json.splits)

lemma find_linkedin_total:
  "list_all wf_social ss \<Longrightarrow> \<exists>l. find_linkedin ss = Inr l"
proof (induction ss)
  case Nil then show ?case by simp
next
  case (Cons s ss)
  then show ?case
    by (cases s) (auto simp: wf_social_def py_or_def split: json.splits)
qed

lemma wf_list_of_iter:
  "wf_list_of P v \<Longrightarrow> \<exists>xs. py_iter (py_or v (JArr [])) = Inr xs \<and> list_all P xs"
  by (cases v) (auto simp: wf_list_of_def py_or_def)

lemma flatten_item_total:
  assumes "wf_item it"
  shows "\<exists>rs. flatten_item it = Inr rs"
proof -
  from assms obtain kv where it: "it = JObj kv" and c: "wf_candidate (dict_get kv ''candidate'')"
    by (cases it) (auto simp: wf_item_def)
  have "\<exists>cand. py_or (dict_get kv ''candidate'') (JObj []) = JObj cand \<and>
      wf_list_of wf_social (dict_get cand ''social'') \<and>
      wf_list_of is_dict (dict_get cand ''contacts'')"
  proof (cases "truthy (dict_get kv ''candidate'')")
    case True
    with c show ?thesis
      by (cases "dict_get kv ''candidate''") (auto simp: wf_candidate_def py_or_def)
  next
    case False
    then have "py_or (dict_get kv ''candidate'') (JObj []) = JObj []"
      by (simp add: py_or_def)
    moreover have "wf_list_of P (dict_get [] k)" for P k
      by (simp add: wf_list_of_def dict_get_def)
    ultimately show ?thesis by blast
  qed
  then obtain cand where cand: "py_or (dict_get kv ''candidate'') (JObj []) = JObj cand"
    and ws: "wf_list_of wf_social (dict_get cand ''social'')"
    and wc: "wf_list_of is_dict (dict_get cand ''contacts'')"
    by blast
  from wf_list_of_iter [OF ws] obtain ss where
    ss: "py_iter (py_or (dict_get cand ''social'') (JArr [])) = Inr ss" "list_all wf_social ss"
    by blast
  from find_linkedin_total [OF ss(2)] obtain l where l: "find_linkedin ss = Inr l" by blast
  from wf_list_of_iter [OF wc] obtain cs where
    cs: "py_iter (py_or (dict_get cand ''contacts'') (JArr [])) = Inr cs" "list_all is_dict cs"
    by blast
  from contact_rows_total [OF cs(2)] obtain rs where
    "contact_rows (dict_get cand ''uid'')
       (py_or (dict_get cand ''fullName'') (dict_get cand ''full_name''))
       (dict_get kv ''status'') (py_or l (dict_get kv ''item'')) cs = Inr rs" by blast
  with it cand ss l cs show ?thesis
    by (auto simp: flatten_item_def Let_def py_or_def split: if_splits)
qed

lemma flatten_items_total:
  "list_all wf_item its \<Longrightarrow> \<exists>rows. flatten_items its acc = Inr rows"
proof (induction its arbitrary: acc)
  case Nil then show ?case by simp
next
  case (Cons it its)
  then show ?case using flatten_item_total [of it] by (auto split: sum.splits)
qed


lemma concat_length_ge:
  "\<forall>rs \<in> set rss. rs \<noteq> [] \<Longrightarrow> length rss \<le> length (concat rss)"
proof (induction rss)
  case Nil then show ?case by simp
next
  case (Cons rs rss)
  then have "1 \<le> length rs" by (cases rs) auto
  with Cons show ?case by auto
qed

lemma payload_items_truthy: "truthy payload \<Longrightarrow> payload_items payload \<noteq> []"
  by (cases payload) (auto simp: payload_items_def)

text \<open>
  Claim C7, as stated, fails: the guard \<open>if not payload: return rows\<close> gives an empty
  payload no row at all.
\<close>

theorem flatten_empty_payload_no_rows: "flatten_callback_payload (JArr []) = Inr []"
  by (simp add: flatten_callback_payload_def)

text \<open>Every empty payload, not only the empty list, is flattened to no rows.\<close>

lemma flatten_falsy_payload:
  "\<not> truthy payload \<Longrightarrow> flatten_callback_payload payload = Inr []"
  by (simp add: flatten_callback_payload_def)

text \<open>
  Claim C7, amended: for every payload that is not empty, flattening that returns
  produces at least one Result Row, indeed at least one per item, also when no contact
  was found; and it does return on a payload whose items have the expected shape.
\<close>

theorem flatten_truthy_payload_rows:
  assumes "truthy payload"
  shows "(\<forall>rows. flatten_callback_payload payload = Inr rows \<longrightarrow>
            rows \<noteq> [] \<and> length (payload_items payload) \<le> length rows) \<and>
         (list_all wf_item (payload_items payload) \<longrightarrow>
            (\<exists>rows. flatten_callback_payload payload = Inr rows))"
proof (intro conjI allI impI)
  fix rows
  assume "flatten_callback_payload payload = Inr rows"
  with assms have "flatten_items (payload_items payload) [] = Inr rows"
    by (simp add: flatten_callback_payload_def)
  from flatten_items_concat [OF this] obtain rss where
    rss: "list_all2 (\<lambda>it rs. flatten_item it = Inr rs) (payload_items payload) rss"
    and rows: "rows = concat rss" by auto
  have "\<forall>rs \<in> set rss. rs \<noteq> []"
  proof
    fix rs assume "rs \<in> set rss"
    with rss obtain it where "flatten_item it = Inr rs"
      by (auto simp: list_all2_conv_all_nth in_set_conv_nth)
    then show "rs \<noteq> []" by (rule flatten_item_nonempty)
  qed
  from concat_length_ge [OF this] list_all2_lengthD [OF rss] rows
  show len: "length (payload_items payload) \<le> length rows" by simp
  with payload_items_truthy [OF assms] show "rows \<noteq> []" by auto
next
  assume "list_all wf_item (payload_items payload)"
  from flatten_items_total [OF this] assms
  show "\<exists>rows. flatten_callback_payload payload = Inr rows"
    by (simp add: flatten_callback_payload_def)
qed

lemmas flatten_eval =
  flatten_callback_payload_def payload_items_def flatten_item_def dict_get_def py_or_def
  lower_def lower_char_def upper_letters_def lower_letters_def Let_def

lemmas wf_eval =
  wf_item_def wf_candidate_def wf_list_of_def wf_social_def is_dict_def dict_get_def

theorem flatten_truthy_payload_rows_witness:
  "truthy (payload_for ''https://www.linkedin.com/in/a'') \<and>
   list_all wf_item (payload_items (payload_for ''https://www.linkedin.com/in/a'')) \<and>
   flatten_callback_payload (payload_for ''https://www.linkedin.com/in/a'') =
     Inr [\<lparr>uid = JNull, full_name = JNull, status = JStr ''failed'',
            linkedin_url = JStr ''https://www.linkedin.com/in/a'',
            contact_type = JNull, contact_value = JNull, contact_subtype = JNull\<rparr>] \<and>
   (\<exists>rows. flatten_callback_payload (payload_for ''https://www.linkedin.com/in/a'') = Inr rows \<and>
      rows \<noteq> [] \<and>
      length (payload_items (payload_for ''https://www.linkedin.com/in/a'')) \<le> length rows)"
proof -
  have t: "truthy (payload_for ''https://www.linkedin.com/in/a'')"
    by (simp add: payload_for_def)
  have wf: "list_all wf_item (payload_items (payload_for ''https://www.linkedin.com/in/a''))"
    by (simp add: payload_for_def payload_items_def wf_eval)
  have ev: "flatten_callback_payload (payload_for ''https://www.linkedin.com/in/a'') =
     Inr [\<lparr>uid = JNull, full_name = JNull, status = JStr ''failed'',
            linkedin_url = JStr ''https://www.linkedin.com/in/a'',
            contact_type = JNull, contact_value = JNull, contact_subtype = JNull\<rparr>]"
    by (simp add: payload_for_def flatten_eval)
  from flatten_truthy_payload_rows [OF t] wf ev show ?thesis
    by (simp add: payload_for_def payload_items_def)
qed

lemma flatten_spec_items:
  "flatten_callback_payload payload = flatten_items (spec_items payload) []"
  by (cases payload)
    (auto simp: flatten_callback_payload_def payload_items_def spec_items_def)

text \<open>
  Claim C8, as stated, fails in its last part: the loop over the social entries breaks
  at the first LinkedIn-typed entry. When that entry has no link, the display link is
  the submitted identifier, whatever link a later LinkedIn-typed entry has.
\<close>

theorem later_linkedin_link_unused:
  "spec_linkedin_links two_profiles_item = [JStr ''https://linkedin.com/in/ada''] \<and>
   flatten_callback_payload (JArr [two_profiles_item]) =
     Inr [\<lparr>uid = JNull, full_name = JNull, status = JStr ''success'',
            linkedin_url = JStr ''https://www.linkedin.com/in/a'',
            contact_type = JNull, contact_value = JNull, contact_subtype = JNull\<rparr>]"
  by (simp add: two_profiles_item_def spec_linkedin_links_def linkedin_typed_def field_def
      elements_def flatten_eval)

text \<open>
  Claim C8, amended: for every item of a callback payload (each element of a list, or a
  payload that is a single non-empty object), flattening returns when the items have the
  expected shape, and what it returns is, item by item and in order: one row per contact
  entry in order when the candidate carries contacts, exactly one row with null contact
  fields when it carries none, each row with the link of the first LinkedIn-typed social
  entry as its display link when that entry has one, and the submitted identifier
  otherwise.
\<close>

theorem flatten_rows_per_item:
  "(list_all wf_item (spec_items payload) \<longrightarrow>
      (\<exists>rows. flatten_callback_payload payload = Inr rows)) \<and>
   (\<forall>rows. flatten_callback_payload payload = Inr rows \<longrightarrow>
      (\<exists>rss. rows = concat rss \<and> list_all2 item_rows (spec_items payload) rss))"
proof (intro conjI allI impI)
  assume "list_all wf_item (spec_items payload)"
  from flatten_items_total [OF this, of "[]"]
  show "\<exists>rows. flatten_callback_payload payload = Inr rows"
    by (simp add: flatten_spec_items)
next
  fix rows
  assume "flatten_callback_payload payload = Inr rows"
  then have "flatten_items (spec_items payload) [] = Inr rows"
    by (simp add: flatten_spec_items)
  from flatten_items_concat [OF this] obtain rss where
    rss: "list_all2 (\<lambda>it rs. flatten_item it = Inr rs) (spec_items payload) rss"
    and rows: "rows = concat rss" by auto
  from rss have "list_all2 item_rows (spec_items payload) rss"
    by (rule list_all2_mono) (rule flatten_item_spec)
  with rows show "\<exists>rss. rows = concat rss \<and> list_all2 item_rows (spec_items payload) rss"
    by blast
qed

theorem flatten_rows_per_item_witness:
  "list_all wf_item (spec_items (JArr example_items)) \<and>
   flatten_callback_payload (JArr example_items) =
     Inr [\<lparr>uid = JStr ''u1'', full_name = JStr ''Ada'', status = JStr ''success'',
            linkedin_url = JStr ''https://linkedin.com/in/ada'',
            contact_type = JStr ''email'', contact_value = JStr ''a@x.org'', contact_subtype = JNull\<rparr>,
          \<lparr>uid = JStr ''u1'', full_name = JStr ''Ada'', status = JStr ''success'',
            linkedin_url = JStr ''https://linkedin.com/in/ada'',
            contact_type = JStr ''phone'', contact_value = JStr ''555'', contact_subtype = JNull\<rparr>,
          \<lparr>uid = JNull, full_name = JNull, status = JStr ''failed'',
            linkedin_url = JStr ''https://www.linkedin.com/in/b'',
            contact_type = JNull, contact_value = JNull, contact_subtype = JNull\<rparr>] \<and>
   (\<exists>rss. [\<lparr>uid = JStr ''u1'', full_name = JStr ''Ada'', status = JStr ''success'',
            linkedin_url = JStr ''https://linkedin.com/in/ada'',
            contact_type = JStr ''email'', contact_value = JStr ''a@x.org'', contact_subtype = JNull\<rparr>,
          \<lparr>uid = JStr ''u1'', full_name = JStr ''Ada'', status = JStr ''success'',
            linkedin_url = JStr ''https://linkedin.com/in/ada'',
            contact_type = JStr ''phone'', contact_value = JStr ''555'', contact_subtype = JNull\<rparr>,
          \<lparr>uid = JNull, full_name = JNull, status = JStr ''failed'',
            linkedin_url = JStr ''https://www.linkedin.com/in/b'',
            contact_type = JNull, contact_value = JNull, contact_subtype = JNull\<rparr>] = concat rss \<and>
      list_all2 item_rows example_items rss) \<and>
   list_all wf_item (spec_items example_object) \<and>
   flatten_callback_payload example_object =
     Inr [\<lparr>uid = JNull, full_name = JNull, status = JStr ''failed'',
            linkedin_url = JStr ''https://www.linkedin.com/in/b'',
            contact_type = JNull, contact_value = JNull, contact_subtype = JNull\<rparr>] \<and>
   (\<exists>rss. [\<lparr>uid = JNull, full_name = JNull, status = JStr ''failed'',
            linkedin_url = JStr ''https://www.linkedin.com/in/b'',
            contact_type = JNull, contact_value = JNull, contact_subtype = JNull\<rparr>] = concat rss \<and>
      list_all2 item_rows [example_object] rss)"
proof -
  have wf: "list_all wf_item (spec_items (JArr example_items))"
    by (simp add: spec_items_def example_items_def wf_eval)
  have ev: "flatten_callback_payload (JArr example_items) =
     Inr [\<lparr>uid = JStr ''u1'', full_name = JStr ''Ada'', status = JStr ''success'',
            linkedin_url = JStr ''https://linkedin.com/in/ada'',
            contact_type = JStr ''email'', contact_value = JStr ''a@x.org'', contact_subtype = JNull\<rparr>,
          \<lparr>uid = JStr ''u1'', full_name = JStr ''Ada'', status = JStr ''success'',
            linkedin_url = JStr ''https://linkedin.com/in/ada'',
            contact_type = JStr ''phone'', contact_value = JStr ''555'', contact_subtype = JNull\<rparr>,
          \<lparr>uid = JNull, full_name = JNull, status = JStr ''failed'',
            linkedin_url = JStr ''https://www.linkedin.com/in/b'',
            contact_type = JNull, contact_value = JNull, contact_subtype = JNull\<rparr>]"
    by (simp add: example_items_def flatten_eval)
  have s1: "spec_items (JArr example_items) = example_items"
    by (simp add: spec_items_def)
  have wfo: "list_all wf_item (spec_items example_object)"
    by (simp add: spec_items_def example_object_def wf_eval)
  have evo: "flatten_callback_payload example_object =
     Inr [\<lparr>uid = JNull, full_name = JNull, status = JStr ''failed'',
            linkedin_url = JStr ''https://www.linkedin.com/in/b'',
            contact_type = JNull, contact_value = JNull, contact_subtype = JNull\<rparr>]"
    by (simp add: example_object_def flatten_eval)
  have s2: "spec_items example_object = [example_object]"
    by (simp add: spec_items_def example_object_def)
  from flatten_rows_per_item [of "JArr example_items"] flatten_rows_per_item [of example_object]
    wf ev wfo evo
  show ?thesis by (simp add: s1 s2)
qed

section \<open>Properties of the storage\<close>

subsection \<open>Batch ids\<close>

lemma length_dec [simp]: "length (dec w n) = w"
  by (induction w arbitrary: n) auto

lemma digit_char_inj:
  assumes "digit_char a = digit_char b"
  shows "a mod 10 = b mod 10"
proof -
  have d: "distinct ''0123456789''" by simp
  have "a mod 10 < length ''0123456789''" "b mod 10 < length ''0123456789''" by simp_all
  with d assms show ?thesis
    unfolding digit_char_def by (simp only: nth_eq_iff_index_eq)
qed

lemma dec_inj:
  "a < 10 ^ w \<Longrightarrow> b < 10 ^ w \<Longrightarrow> dec w a = dec w b \<Longrightarrow> a = b"
proof (induction w arbitrary: a b)
  case 0
  then show ?case by simp
next
  case (Suc w)
  from Suc.prems have "dec w (a div 10) = dec w (b div 10)" "digit_char a = digit_char b"
    by simp_all
  moreover from Suc.prems have "a div 10 < 10 ^ w" "b div 10 < 10 ^ w"
    by (simp_all add: less_mult_imp_div_less mult.commute)
  ultimately have "a div 10 = b div 10" "a mod 10 = b mod 10"
    using Suc.IH digit_char_inj by blast+
  then show ?case by (metis div_mult_mod_eq)
qed


lemma new_batch_id_eq:
  "new_batch_id t = dec 2 (second t) @ dec 6 (microsecond t)"
proof -
  define p where "p = dec 4 (year t) @ dec 2 (month t) @ dec 2 (day t) @ ''_'' @
     dec 2 (hour t) @ dec 2 (minute t)"
  define q where "q = dec 2 (second t) @ dec 6 (microsecond t)"
  have s: "strftime t = p @ q" by (simp add: strftime_def p_def q_def)
  have "length p = 13" "length q = 8" by (simp_all add: p_def q_def)
  then have "drop (length (p @ q) - 8) (p @ q) = q" by simp
  then show ?thesis by (simp add: new_batch_id_def Let_def s q_def)
qed


lemma dec_2: "dec 2 n = [digit_char (n div 10), digit_char n]"
proof -
  have "(2::nat) = Suc (Suc 0)" by simp
  then show ?thesis by (simp only: dec.simps append_Nil append_Cons)
qed

lemma dec_6:
  "dec 6 n = [digit_char (n div 10 div 10 div 10 div 10 div 10), digit_char (n div 10 div 10 div 10 div 10),
              digit_char (n div 10 div 10 div 10), digit_char (n div 10 div 10),
              digit_char (n div 10), digit_char n]"
proof -
  have "(6::nat) = Suc (Suc (Suc (Suc (Suc (Suc 0)))))" by simp
  then show ?thesis by (simp only: dec.simps append_Nil append_Cons)
qed

text \<open>
  Claim C10, amended: two batch creations get the same id exactly when their clock
  readings agree in the seconds and the microseconds; the id is these eight digits, so
  readings that differ in either get different ids, and no others do.
\<close>

theorem new_batch_id_same_iff:
  assumes "valid_datetime t1" "valid_datetime t2"
  shows "new_batch_id t1 = new_batch_id t2 \<longleftrightarrow>
         second t1 = second t2 \<and> microsecond t1 = microsecond t2"
proof
  assume "new_batch_id t1 = new_batch_id t2"
  then have "dec 2 (second t1) = dec 2 (second t2)"
    "dec 6 (microsecond t1) = dec 6 (microsecond t2)"
    by (simp_all add: new_batch_id_eq)
  moreover from assms have "second t1 < 10 ^ 2" "second t2 < 10 ^ 2"
    "microsecond t1 < 10 ^ 6" "microsecond t2 < 10 ^ 6"
    by (simp_all add: valid_datetime_def)
  ultimately show "second t1 = second t2 \<and> microsecond t1 = microsecond t2"
    using dec_inj by blast
next
  assume "second t1 = second t2 \<and> microsecond t1 = microsecond t2"
  then show "new_batch_id t1 = new_batch_id t2" by (simp add: new_batch_id_eq)
qed

text \<open>
  Claim C10, as stated, fails: two batch creations one minute apart get the same id.
\<close>

theorem new_batch_id_collision:
  "valid_datetime noon \<and> valid_datetime (noon\<lparr>minute := 1\<rparr>) \<and> noon \<noteq> noon\<lparr>minute := 1\<rparr> \<and>
   new_batch_id noon = ''07123456'' \<and> new_batch_id (noon\<lparr>minute := 1\<rparr>) = ''07123456''"
  by (simp add: new_batch_id_eq noon_def valid_datetime_def dec_2 dec_6 digit_char_def)

theorem new_batch_id_same_iff_witness:
  "valid_datetime noon \<and> valid_datetime (noon\<lparr>second := 8\<rparr>) \<and>
   new_batch_id noon \<noteq> new_batch_id (noon\<lparr>second := 8\<rparr>)"
proof -
  have v: "valid_datetime noon" "valid_datetime (noon\<lparr>second := 8\<rparr>)"
    by (simp_all add: noon_def valid_datetime_def)
  from new_batch_id_same_iff [OF v] v show ?thesis by (simp add: noon_def)
qed


subsection \<open>The Correlation Index\<close>





lemma find_map_same [simp]:
  "find_batch_by_request rid (map_request_to_batch rid b w) = Some (strip b)"
  by (simp add: find_batch_by_request_def map_request_to_batch_def)

lemma find_map_other [simp]:
  "rid' \<noteq> rid \<Longrightarrow>
   find_batch_by_request rid (map_request_to_batch rid' b w) = find_batch_by_request rid w"
  by (simp add: find_batch_by_request_def map_request_to_batch_def)

lemma find_requests_cong:
  "requests w' = requests w \<Longrightarrow> find_batch_by_request rid w' = find_batch_by_request rid w"
  by (simp add: find_batch_by_request_def)

subsection \<open>What each storage operation leaves alone\<close>

lemma write_status_fields [simp]:
  "requests (write_status b st w) = requests w"
  "results_json (write_status b st w) = results_json w"
  "results_csv (write_status b st w) = results_csv w"
  "original_csv (write_status b st w) = original_csv w"
  "outbox (write_status b st w) = outbox w"
  "status_files (write_status b st w) = (status_files w)(b \<mapsto> st)"
  by (simp_all add: write_status_def)

lemma read_write_status [simp]:
  "read_status b (write_status b st w) = st"
  "b' \<noteq> b \<Longrightarrow> read_status b' (write_status b st w) = read_status b' w"
  by (simp_all add: read_status_def)

lemma read_status_cong:
  "status_files w' b = status_files w b \<Longrightarrow> read_status b w' = read_status b w"
  by (simp add: read_status_def)

lemma read_status_outbox [simp]:
  "read_status b (w\<lparr>outbox := ob\<rparr>) = read_status b w"
  by (simp add: read_status_def)

lemma append_results_json_fields [simp]:
  "requests (append_results_json b rid p w) = requests w"
  "status_files (append_results_json b rid p w) = status_files w"
  "results_csv (append_results_json b rid p w) = results_csv w"
  "original_csv (append_results_json b rid p w) = original_csv w"
  "outbox (append_results_json b rid p w) = outbox w"
  "b' \<noteq> b \<Longrightarrow> results_json (append_results_json b rid p w) b' = results_json w b'"
  by (simp_all add: append_results_json_def Let_def)

lemma append_results_csv_fields [simp]:
  "requests (append_results_csv b rows w) = requests w"
  "status_files (append_results_csv b rows w) = status_files w"
  "results_json (append_results_csv b rows w) = results_json w"
  "original_csv (append_results_csv b rows w) = original_csv w"
  "outbox (append_results_csv b rows w) = outbox w"
  "b' \<noteq> b \<Longrightarrow> results_csv (append_results_csv b rows w) b' = results_csv w b'"
  by (simp_all add: append_results_csv_def)

lemma read_status_append [simp]:
  "read_status b' (append_results_json b rid p w) = read_status b' w"
  "read_status b' (append_results_csv b rows w) = read_status b' w"
  by (simp_all add: read_status_def)

lemma find_append [simp]:
  "find_batch_by_request r (append_results_json b rid p w) = find_batch_by_request r w"
  "find_batch_by_request r (append_results_csv b rows w) = find_batch_by_request r w"
  "find_batch_by_request r (write_status b st w) = find_batch_by_request r w"
  by (simp_all add: find_batch_by_request_def)


lemma result_mails_append [simp]:
  "result_mails b' (append_results_json b rid p w) = result_mails b' w"
  "result_mails b' (append_results_csv b rows w) = result_mails b' w"
  "result_mails b' (write_status b st w) = result_mails b' w"
  by (simp_all add: result_mails_def)


section \<open>Properties of the callback handler\<close>

subsection \<open>The status update of the callback handler\<close>

lemma remove1_if [simp]: "(if x \<in> set xs then remove1 x xs else xs) = remove1 x xs"
  by (simp add: remove1_idem)

lemma status_reads [simp]:
  "pending_of (st\<lparr>st_pending := Some p\<rparr>) = p"
  "pending_of (st\<lparr>st_received := r\<rparr>) = pending_of st"
  "pending_of (st\<lparr>st_status := s\<rparr>) = pending_of st"
  "pending_of (st\<lparr>st_errors := es\<rparr>) = pending_of st"
  "received_of (st\<lparr>st_received := Some n\<rparr>) = n"
  "received_of (st\<lparr>st_pending := q\<rparr>) = received_of st"
  "received_of (st\<lparr>st_status := s\<rparr>) = received_of st"
  "received_of (st\<lparr>st_errors := es\<rparr>) = received_of st"
  "errors_of (st\<lparr>st_errors := Some l\<rparr>) = l"
  "errors_of (st\<lparr>st_pending := q\<rparr>) = errors_of st"
  "errors_of (st\<lparr>st_received := r\<rparr>) = errors_of st"
  "errors_of (st\<lparr>st_status := s\<rparr>) = errors_of st"
  by (simp_all add: pending_of_def received_of_def errors_of_def)

lemma callback_errors_upd [simp]:
  "callback_errors (st\<lparr>st_pending := q\<rparr>) = callback_errors st"
  "callback_errors (st\<lparr>st_received := r\<rparr>) = callback_errors st"
  "callback_errors (st\<lparr>st_status := s\<rparr>) = callback_errors st"
  "callback_errors (st\<lparr>st_errors := Some (errors_of st @ [EmailError m])\<rparr>) = callback_errors st"
  "callback_errors (st\<lparr>st_errors := Some (errors_of st @ [CallbackError m])\<rparr>) = callback_errors st + 1"
  by (simp_all add: callback_errors_def)

lemma update_status_frame [simp]:
  "requests (update_status smtp b rid w) = requests w"
  "results_json (update_status smtp b rid w) = results_json w"
  "results_csv (update_status smtp b rid w) = results_csv w"
  "original_csv (update_status smtp b rid w) = original_csv w"
  by (simp_all add: update_status_def Let_def split: option.splits)

lemma update_status_other:
  "b' \<noteq> b \<Longrightarrow> status_files (update_status smtp b rid w) b' = status_files w b'"
  by (simp add: update_status_def Let_def split: option.splits)

lemma update_status_read:
  "pending_of (read_status b (update_status smtp b rid w)) = remove1 rid (pending_of (read_status b w))"
  "received_of (read_status b (update_status smtp b rid w)) = received_of (read_status b w) + 1"
  "st_total_items (read_status b (update_status smtp b rid w)) = st_total_items (read_status b w)"
  "st_email (read_status b (update_status smtp b rid w)) = st_email (read_status b w)"
  "callback_errors (read_status b (update_status smtp b rid w)) = callback_errors (read_status b w)"
  "st_status (read_status b (update_status smtp b rid w)) =
     (if remove1 rid (pending_of (read_status b w)) = [] then Some ''complete''
      else st_status (read_status b w))"
  by (simp_all add: update_status_def Let_def callback_errors_def errors_of_def
        split: option.splits)

lemma update_status_outbox:
  "outbox (update_status smtp b rid w) = outbox w \<or>
   (\<exists>e. outbox (update_status smtp b rid w) = outbox w @ [ResultEmail e b] \<and>
        remove1 rid (pending_of (read_status b w)) = [])"
  by (simp add: update_status_def Let_def split: option.splits)

lemma update_status_mails:
  "result_mails b' (update_status smtp b rid w) \<le> result_mails b' w + 1"
  "b' \<noteq> b \<Longrightarrow> result_mails b' (update_status smtp b rid w) = result_mails b' w"
  "remove1 rid (pending_of (read_status b w)) \<noteq> [] \<Longrightarrow>
     result_mails b' (update_status smtp b rid w) = result_mails b' w"
  using update_status_outbox [of smtp b rid w] by (auto simp: result_mails_def)

subsection \<open>The exception handler\<close>

lemma callback_except_frame [simp]:
  "requests (callback_except rid e w) = requests w"
  "results_json (callback_except rid e w) = results_json w"
  "results_csv (callback_except rid e w) = results_csv w"
  "original_csv (callback_except rid e w) = original_csv w"
  by (simp_all add: callback_except_def Let_def split: option.splits)

lemma callback_except_mails [simp]:
  "result_mails b (callback_except rid e w) = result_mails b w"
  by (simp add: callback_except_def Let_def result_mails_def split: option.splits)

lemma callback_except_unresolved:
  "find_batch_by_request rid w = None \<or> find_batch_by_request rid w = Some [] \<Longrightarrow>
   callback_except rid e w = w"
  by (auto simp: callback_except_def)

lemma callback_except_other:
  "find_batch_by_request rid w \<noteq> Some b \<Longrightarrow>
   status_files (callback_except rid e w) b = status_files w b"
  by (auto simp: callback_except_def Let_def split: option.splits)

lemma callback_except_read:
  assumes "find_batch_by_request rid w = Some b" "b \<noteq> []"
  shows "read_status b (callback_except rid e w) =
           (read_status b w)\<lparr>st_errors := Some (errors_of (read_status b w) @ [CallbackError (exc_str e)])\<rparr>"
  using assms by (simp add: callback_except_def Let_def split: option.splits)


subsection \<open>The five ways through the callback handler\<close>

lemma callback_no_header:
  "header_request_id req = None \<or> header_request_id req = Some [] \<Longrightarrow>
   callback smtp req w = (HTTPException 400 ''Missing Request-Id header'', w)"
  by (auto simp: callback_def)

lemma callback_bad_body:
  "header_request_id req = Some rid \<Longrightarrow> rid \<noteq> [] \<Longrightarrow> body req = Inl msg \<Longrightarrow>
   callback smtp req w = (HTTPException 500 msg, callback_except rid (JSONDecodeError msg) w)"
  by (simp add: callback_def callback_try_def)

lemma callback_unknown:
  "header_request_id req = Some rid \<Longrightarrow> rid \<noteq> [] \<Longrightarrow> body req = Inr payload \<Longrightarrow>
   find_batch_by_request rid w = None \<or> find_batch_by_request rid w = Some [] \<Longrightarrow>
   callback smtp req w = (Accepted_unknown, w)"
  by (auto simp: callback_def callback_try_def)

lemma callback_flatten_raises:
  "header_request_id req = Some rid \<Longrightarrow> rid \<noteq> [] \<Longrightarrow> body req = Inr payload \<Longrightarrow>
   find_batch_by_request rid w = Some b \<Longrightarrow> b \<noteq> [] \<Longrightarrow>
   flatten_callback_payload payload = Inl e \<Longrightarrow>
   callback smtp req w =
     (HTTPException 500 (exc_str e), callback_except rid e (append_results_json b rid payload w))"
  by (simp add: callback_def callback_try_def Let_def)

lemma callback_accepted:
  "header_request_id req = Some rid \<Longrightarrow> rid \<noteq> [] \<Longrightarrow> body req = Inr payload \<Longrightarrow>
   find_batch_by_request rid w = Some b \<Longrightarrow> b \<noteq> [] \<Longrightarrow>
   flatten_callback_payload payload = Inr rows \<Longrightarrow>
   callback smtp req w =
     (Accepted_batch b,
      update_status smtp b rid (append_results_csv b rows (append_results_json b rid payload w)))"
  by (simp add: callback_def callback_try_def Let_def)

text \<open>Every delivery takes one of the five ways.\<close>

lemma callback_cases:
  obtains
    (no_header) "header_request_id req = None \<or> header_request_id req = Some []"
      "resolve_delivery req w = None"
  | (bad_body) rid msg where "header_request_id req = Some rid" "rid \<noteq> []" "body req = Inl msg"
  | (unknown) rid payload where "header_request_id req = Some rid" "rid \<noteq> []"
      "body req = Inr payload"
      "find_batch_by_request rid w = None \<or> find_batch_by_request rid w = Some []"
      "resolve_delivery req w = None"
  | (raises) rid payload b e where "header_request_id req = Some rid" "rid \<noteq> []"
      "body req = Inr payload" "find_batch_by_request rid w = Some b" "b \<noteq> []"
      "flatten_callback_payload payload = Inl e" "resolve_delivery req w = Some b"
  | (accepted) rid payload b rows where "header_request_id req = Some rid" "rid \<noteq> []"
      "body req = Inr payload" "find_batch_by_request rid w = Some b" "b \<noteq> []"
      "flatten_callback_payload payload = Inr rows" "resolve_delivery req w = Some b"
proof (cases "header_request_id req")
  case None
  then show ?thesis using no_header by (simp add: resolve_delivery_def)
next
  case (Some rid)
  show ?thesis
  proof (cases "rid = []")
    case True
    with Some show ?thesis using no_header by (simp add: resolve_delivery_def)
  next
    case False
    show ?thesis
    proof (cases "body req")
      case (Inl msg)
      with Some False show ?thesis using bad_body by blast
    next
      case (Inr payload)
      show ?thesis
      proof (cases "find_batch_by_request rid w")
        case None
        with Some False Inr show ?thesis using unknown [of rid payload]
          by (simp add: resolve_delivery_def)
      next
        case (Some b)
        show ?thesis
        proof (cases "b = []")
          case True
          with Some \<open>header_request_id req = Some rid\<close> False Inr show ?thesis
            using unknown [of rid payload] by (simp add: resolve_delivery_def)
        next
          case nonempty: False
          have r: "resolve_delivery req w = Some b"
            using Some \<open>header_request_id req = Some rid\<close> False nonempty
            by (simp add: resolve_delivery_def)
          show ?thesis
          proof (cases "flatten_callback_payload payload")
            case (Inl e)
            with Some \<open>header_request_id req = Some rid\<close> False Inr nonempty r
            show ?thesis using raises by blast
          next
            case rows: (Inr rows)
            with Some \<open>header_request_id req = Some rid\<close> False Inr nonempty r
            show ?thesis using accepted by blast
          qed
        qed
      qed
    qed
  qed
qed

lemma resolve_delivery_find:
  "resolve_delivery req w = Some b \<Longrightarrow>
   \<exists>rid. header_request_id req = Some rid \<and> rid \<noteq> [] \<and>
         find_batch_by_request rid w = Some b \<and> b \<noteq> []"
  by (auto simp: resolve_delivery_def split: option.splits if_splits)

lemma callback_requests [simp]: "requests (snd (callback smtp req w)) = requests w"
proof (cases req w rule: callback_cases)
  case no_header
  then show ?thesis by (simp add: callback_no_header)
next
  case (bad_body rid msg)
  then show ?thesis by (simp add: callback_bad_body)
next
  case (unknown rid payload)
  then show ?thesis by (simp add: callback_unknown)
next
  case (raises rid payload b e)
  then show ?thesis by (simp add: callback_flatten_raises)
next
  case (accepted rid payload b rows)
  then show ?thesis by (simp add: callback_accepted)
qed

lemma callback_original [simp]: "original_csv (snd (callback smtp req w)) = original_csv w"
proof (cases req w rule: callback_cases)
  case no_header
  then show ?thesis by (simp add: callback_no_header)
next
  case (bad_body rid msg)
  then show ?thesis by (simp add: callback_bad_body)
next
  case (unknown rid payload)
  then show ?thesis by (simp add: callback_unknown)
next
  case (raises rid payload b e)
  then show ?thesis by (simp add: callback_flatten_raises)
next
  case (accepted rid payload b rows)
  then show ?thesis by (simp add: callback_accepted)
qed

lemma callback_find [simp]:
  "find_batch_by_request r (snd (callback smtp req w)) = find_batch_by_request r w"
  by (rule find_requests_cong) simp

lemma callback_resolve [simp]:
  "resolve_delivery q (snd (callback smtp req w)) = resolve_delivery q w"
  by (simp add: resolve_delivery_def split: option.splits)


subsection \<open>What one delivery does to a batch\<close>

text \<open>A delivery handled for no batch, or for another one, leaves a batch as it is.\<close>

lemma callback_other:
  assumes "resolve_delivery req w \<noteq> Some b"
  shows "status_files (snd (callback smtp req w)) b = status_files w b"
    and "results_json (snd (callback smtp req w)) b = results_json w b"
    and "results_csv (snd (callback smtp req w)) b = results_csv w b"
    and "result_mails b (snd (callback smtp req w)) = result_mails b w"
proof -
  have "status_files (snd (callback smtp req w)) b = status_files w b \<and>
        results_json (snd (callback smtp req w)) b = results_json w b \<and>
        results_csv (snd (callback smtp req w)) b = results_csv w b \<and>
        result_mails b (snd (callback smtp req w)) = result_mails b w"
  proof (cases req w rule: callback_cases)
    case no_header
    then show ?thesis by (simp add: callback_no_header)
  next
    case (bad_body rid msg)
    with assms have "find_batch_by_request rid w \<noteq> Some b \<or> b = []"
      by (auto simp: resolve_delivery_def split: option.splits if_splits)
    then have "status_files (callback_except rid (JSONDecodeError msg) w) b = status_files w b"
      by (auto simp: callback_except_def Let_def split: option.splits)
    with bad_body show ?thesis by (simp add: callback_bad_body)
  next
    case (unknown rid payload)
    then show ?thesis by (simp add: callback_unknown)
  next
    case (raises rid payload b' e)
    with assms have ne: "b' \<noteq> b" by simp
    with raises have "find_batch_by_request rid (append_results_json b' rid payload w) \<noteq> Some b"
      by simp
    from callback_except_other [OF this] raises ne show ?thesis
      by (simp add: callback_flatten_raises)
  next
    case (accepted rid payload b' rows)
    with assms have ne: "b \<noteq> b'" by auto
    with accepted show ?thesis
      by (simp add: callback_accepted update_status_other update_status_mails)
  qed
  then show "status_files (snd (callback smtp req w)) b = status_files w b"
    and "results_json (snd (callback smtp req w)) b = results_json w b"
    and "results_csv (snd (callback smtp req w)) b = results_csv w b"
    and "result_mails b (snd (callback smtp req w)) = result_mails b w"
    by simp_all
qed

text \<open>
  A delivery handled for a batch either counts (the request id leaves the pending list,
  \<open>received\<close> grows by one) or fails (one callback error is recorded).
\<close>

lemma callback_step:
  fixes smtp :: "mail \<Rightarrow> string option" and req :: request and w :: world and b :: string
  assumes "resolve_delivery req w = Some b" "header_request_id req = Some rid"
  defines "st \<equiv> read_status b w" and "st' \<equiv> read_status b (snd (callback smtp req w))"
  shows "st_total_items st' = st_total_items st \<and>
         ((pending_of st' = remove1 rid (pending_of st) \<and>
           received_of st' = received_of st + 1 \<and>
           callback_errors st' = callback_errors st \<and>
           result_mails b (snd (callback smtp req w)) \<le> result_mails b w + 1 \<and>
           (pending_of st' \<noteq> [] \<longrightarrow>
              result_mails b (snd (callback smtp req w)) = result_mails b w \<and>
              st_status st' = st_status st) \<and>
           (pending_of st' = [] \<longrightarrow> st_status st' = Some ''complete'')) \<or>
          (pending_of st' = pending_of st \<and>
           received_of st' = received_of st \<and>
           callback_errors st' = callback_errors st + 1 \<and>
           result_mails b (snd (callback smtp req w)) = result_mails b w \<and>
           st_status st' = st_status st))"
proof (cases req w rule: callback_cases)
  case no_header
  with assms show ?thesis by simp
next
  case (bad_body rid' msg)
  with assms have f: "find_batch_by_request rid w = Some b" "b \<noteq> []" "rid' = rid"
    by (auto simp: resolve_delivery_def split: option.splits if_splits)
  from callback_except_read [OF f(1,2)] bad_body f show ?thesis
    by (simp add: callback_bad_body st_def st'_def callback_errors_def)
next
  case (unknown rid' payload)
  with assms show ?thesis by simp
next
  case (raises rid' payload b' e)
  with assms have eq: "rid' = rid" "b' = b" by simp_all
  with raises have "find_batch_by_request rid (append_results_json b rid payload w) = Some b"
    by simp
  from callback_except_read [OF this \<open>b' \<noteq> []\<close> [unfolded eq]] raises eq show ?thesis
    by (simp add: callback_flatten_raises st_def st'_def callback_errors_def)
next
  case (accepted rid' payload b' rows)
  with assms have eq: "rid' = rid" "b' = b" by simp_all
  let ?w1 = "append_results_csv b rows (append_results_json b rid payload w)"
  have w': "snd (callback smtp req w) = update_status smtp b rid ?w1"
    using accepted eq by (simp add: callback_accepted)
  have m: "result_mails b ?w1 = result_mails b w" by (simp add: result_mails_def)
  show ?thesis
    unfolding st_def st'_def w'
    using update_status_read [where b = b and smtp = smtp and rid = rid and w = ?w1]
      update_status_mails(1) [where b = b and b' = b and smtp = smtp and rid = rid and w = ?w1]
      update_status_mails(3) [where b = b and b' = b and smtp = smtp and rid = rid and w = ?w1]
    by (simp add: m)
qed

lemma callback_stays_complete:
  "is_complete b w \<Longrightarrow> is_complete b (snd (callback smtp req w))"
proof (cases "resolve_delivery req w = Some b")
  case False
  assume "is_complete b w"
  with callback_other(1) [OF False, of smtp] show ?thesis
    by (simp add: is_complete_def read_status_def)
next
  case True
  assume c: "is_complete b w"
  from resolve_delivery_find [OF True] obtain rid where "header_request_id req = Some rid"
    by blast
  from callback_step [OF True this, of smtp] c show ?thesis
    by (auto simp: is_complete_def)
qed


subsection \<open>Sequences of deliveries\<close>

lemma batch_tokens_callback [simp]:
  "batch_tokens b ds (snd (callback smtp req w)) = batch_tokens b ds w"
  by (simp add: batch_tokens_def)

lemma batch_tokens_Cons:
  "batch_tokens b (d # ds) w =
     (if resolve_delivery (snd d) w = Some b
      then (case header_request_id (snd d) of None \<Rightarrow> [] | Some rid \<Rightarrow> rid) # batch_tokens b ds w
      else batch_tokens b ds w)"
  by (simp add: batch_tokens_def)

lemma subset_remove1:
  assumes "x \<notin> set ts" "set ts \<subseteq> set ps"
  shows "set ts \<subseteq> set (remove1 x ps)"
proof
  fix t
  assume "t \<in> set ts"
  with assms have "t \<noteq> x" "t \<in> set ps" by auto
  then show "t \<in> set (remove1 x ps)" by simp
qed

lemma trace_hd: "\<exists>rest. trace ds w = w # rest"
  by (cases ds) auto

lemma completions_complete:
  "is_complete b w \<Longrightarrow> completions b (trace ds w) = 0"
proof (induction ds arbitrary: w)
  case Nil
  then show ?case by simp
next
  case (Cons d ds)
  let ?w' = "snd (callback (fst d) (snd d) w)"
  from Cons.prems have c: "is_complete b ?w'" by (rule callback_stays_complete)
  obtain rest where r: "trace ds ?w' = ?w' # rest" using trace_hd by blast
  from Cons.IH [OF c] r Cons.prems show ?case by simp
qed

lemma completions_le_1: "completions b (trace ds w) \<le> 1"
proof (induction ds arbitrary: w)
  case Nil
  then show ?case by simp
next
  case (Cons d ds)
  let ?w' = "snd (callback (fst d) (snd d) w)"
  obtain rest where r: "trace ds ?w' = ?w' # rest" using trace_hd by blast
  show ?case
  proof (cases "is_complete b ?w'")
    case True
    from completions_complete [OF True, of ds] r show ?thesis by simp
  next
    case False
    with Cons.IH [of ?w'] r show ?thesis by simp
  qed
qed

lemma deliver_no_tokens:
  "batch_tokens b ds w = [] \<Longrightarrow>
   result_mails b (deliver ds w) = result_mails b w \<and>
   status_files (deliver ds w) b = status_files w b"
proof (induction ds arbitrary: w)
  case Nil
  then show ?case by simp
next
  case (Cons d ds)
  let ?w' = "snd (callback (fst d) (snd d) w)"
  from Cons.prems have n: "resolve_delivery (snd d) w \<noteq> Some b" and t: "batch_tokens b ds ?w' = []"
    by (auto simp: batch_tokens_Cons split: if_splits)
  from Cons.IH [OF t] callback_other(1,4) [OF n, of "fst d"] show ?case by simp
qed

lemma deliver_mails_once:
  "no_redelivery b ds w \<Longrightarrow> result_mails b (deliver ds w) \<le> result_mails b w + 1"
proof (induction ds arbitrary: w)
  case Nil
  then show ?case by simp
next
  case (Cons d ds)
  let ?w' = "snd (callback (fst d) (snd d) w)"
  show ?case
  proof (cases "resolve_delivery (snd d) w = Some b")
    case False
    from callback_other(1) [OF False, of "fst d"]
    have "read_status b ?w' = read_status b w" by (rule read_status_cong)
    with Cons.prems False have "no_redelivery b ds ?w'"
      by (simp add: no_redelivery_def batch_tokens_Cons)
    from Cons.IH [OF this] callback_other(4) [OF False, of "fst d"] show ?thesis by simp
  next
    case True
    from resolve_delivery_find [OF True] obtain rid where h: "header_request_id (snd d) = Some rid"
      by blast
    from Cons.prems True h have d: "distinct (batch_tokens b ds w)"
      "rid \<notin> set (batch_tokens b ds w)"
      and s: "set (batch_tokens b ds w) \<subseteq> set (pending_of (read_status b w))"
      by (simp_all add: no_redelivery_def batch_tokens_Cons)
    note step = callback_step [OF True h, of "fst d"]
    show ?thesis
    proof (cases "result_mails b ?w' = result_mails b w")
      case same: True
      from step have "pending_of (read_status b ?w') = remove1 rid (pending_of (read_status b w)) \<or>
        pending_of (read_status b ?w') = pending_of (read_status b w)" by auto
      with subset_remove1 [OF d(2) s] s
      have "set (batch_tokens b ds w) \<subseteq> set (pending_of (read_status b ?w'))"
        by auto
      with d(1) have "no_redelivery b ds ?w'" by (simp add: no_redelivery_def)
      from Cons.IH [OF this] same show ?thesis by simp
    next
      case differs: False
      with step have p: "pending_of (read_status b ?w') = []"
        "pending_of (read_status b ?w') = remove1 rid (pending_of (read_status b w))"
        and m: "result_mails b ?w' \<le> result_mails b w + 1"
        by auto
      from p subset_remove1 [OF d(2) s] have "set (batch_tokens b ds w) \<subseteq> {}"
        by simp
      then have "batch_tokens b ds ?w' = []" by simp
      from deliver_no_tokens [OF this] m show ?thesis by simp
    qed
  qed
qed

lemma deliver_measure:
  "received_of (read_status b (deliver ds w)) + callback_errors (read_status b (deliver ds w))
     \<le> received_of (read_status b w) + callback_errors (read_status b w) +
        int (length (batch_tokens b ds w)) \<and>
   st_total_items (read_status b (deliver ds w)) = st_total_items (read_status b w)"
proof (induction ds arbitrary: w)
  case Nil
  then show ?case by simp
next
  case (Cons d ds)
  let ?w' = "snd (callback (fst d) (snd d) w)"
  show ?case
  proof (cases "resolve_delivery (snd d) w = Some b")
    case False
    from callback_other(1) [OF False, of "fst d"]
    have "read_status b ?w' = read_status b w" by (rule read_status_cong)
    with Cons.IH [of ?w'] False show ?thesis by (simp add: batch_tokens_Cons)
  next
    case True
    from resolve_delivery_find [OF True] obtain rid where h: "header_request_id (snd d) = Some rid"
      by blast
    from callback_step [OF True h, of "fst d"]
    have "received_of (read_status b ?w') + callback_errors (read_status b ?w') =
          received_of (read_status b w) + callback_errors (read_status b w) + 1"
      and "st_total_items (read_status b ?w') = st_total_items (read_status b w)"
      by auto
    with Cons.IH [of ?w'] True show ?thesis by (simp add: batch_tokens_Cons)
  qed
qed

lemma distinct_subset_length:
  "distinct xs \<Longrightarrow> set xs \<subseteq> set ys \<Longrightarrow> length xs \<le> length ys"
  by (metis card_length card_mono distinct_card List.finite_set le_trans)


lemmas world_eval =
  callback_def callback_try_def update_status_def append_results_csv_def
  append_results_json_def write_status_def read_status_def find_batch_by_request_def
  strip_def is_space_def delivery_def payload_for_def initial_status_def empty_world_def
  smtp_ok_def pending_of_def received_of_def errors_of_def table_of_def result_mails_def
  flatten_eval

lemma world1_once_eval:
  "fst (callback smtp_ok d1 world1) = Accepted_batch ''b1''"
  "requests world1_once = requests world1"
  "status_files world1_once ''b1'' =
     Some ((initial_status ''ada@x.org'' 1)\<lparr>st_pending := Some [], st_received := Some 1,
            st_status := Some ''complete''\<rparr>)"
  "results_csv world1_once ''b1'' =
     Some [\<lparr>uid = JNull, full_name = JNull, status = JStr ''failed'',
             linkedin_url = JStr ''https://www.linkedin.com/in/a'',
             contact_type = JNull, contact_value = JNull, contact_subtype = JNull\<rparr>]"
  "outbox world1_once = [ResultEmail ''ada@x.org'' ''b1'']"
  by (simp_all add: world1_once_def world1_def d1_def world_eval)


subsection \<open>Redelivery\<close>

lemma append_results_json_present:
  assumes "results_json w b = Some data" "data rid = Some p"
  shows "results_json (append_results_json b rid p' w) = results_json w"
  using assms by (auto simp: append_results_json_def Let_def)

lemma append_results_json_records:
  "\<exists>data p'. results_json (append_results_json b rid p w) b = Some data \<and> data rid = Some p'"
  by (auto simp: append_results_json_def Let_def split: option.splits)

lemma table_of_append:
  "table_of b (append_results_csv b rows w) = table_of b w @ rows"
  by (simp add: table_of_def append_results_csv_def)

lemma table_of_cong: "results_csv w' = results_csv w \<Longrightarrow> table_of b w' = table_of b w"
  by (simp add: table_of_def)

lemma callback_accepted_cases:
  assumes "callback smtp req w = (Accepted_batch b, w1)"
  obtains rid payload rows where "header_request_id req = Some rid" "rid \<noteq> []"
    "body req = Inr payload" "find_batch_by_request rid w = Some b" "b \<noteq> []"
    "flatten_callback_payload payload = Inr rows"
    "w1 = update_status smtp b rid (append_results_csv b rows (append_results_json b rid payload w))"
proof (cases req w rule: callback_cases)
  case no_header
  with assms show ?thesis by (simp add: callback_no_header)
next
  case (bad_body rid msg)
  with assms show ?thesis by (simp add: callback_bad_body)
next
  case (unknown rid payload)
  with assms show ?thesis by (simp add: callback_unknown)
next
  case (raises rid payload b' e)
  with assms show ?thesis by (simp add: callback_flatten_raises)
next
  case (accepted rid payload b' rows)
  with assms have "b' = b"
    "w1 = update_status smtp b rid (append_results_csv b rows (append_results_json b rid payload w))"
    by (auto simp: callback_accepted)
  with accepted that show ?thesis by blast
qed

text \<open>
  Claim C1, as stated, fails: the handler has no check for a request id it has seen.
  The callback of a batch of one, delivered twice, is counted twice and its row is
  in the result table twice.
\<close>

theorem redelivery_counted_twice:
  "fst (callback smtp_ok d1 world1) = Accepted_batch ''b1'' \<and>
   fst (callback smtp_ok d1 world1_once) = Accepted_batch ''b1'' \<and>
   received_of (read_status ''b1'' world1_once) = 1 \<and>
   received_of (read_status ''b1'' world1_twice) = 2 \<and>
   length (table_of ''b1'' world1_once) = 1 \<and>
   length (table_of ''b1'' world1_twice) = 2"
  by (simp add: world1_twice_def world1_once_def world1_def d1_def world_eval)

text \<open>
  Claim C1, amended: a callback delivery acknowledged for a batch, delivered a second
  time with the same token and body, is acknowledged for the batch again and leaves the
  Raw Payload Ledger as it is; it is handled anew all the same: \<open>received\<close> grows by
  one more, and the rows of the payload are appended to the result table once more.
\<close>

theorem redelivery_handled_again:
  assumes "callback smtp req w = (Accepted_batch b, w1)"
  shows "\<exists>rid payload rows.
           header_request_id req = Some rid \<and> body req = Inr payload \<and>
           flatten_callback_payload payload = Inr rows \<and>
           fst (callback smtp' req w1) = Accepted_batch b \<and>
           results_json (snd (callback smtp' req w1)) = results_json w1 \<and>
           received_of (read_status b (snd (callback smtp' req w1))) =
             received_of (read_status b w1) + 1 \<and>
           table_of b (snd (callback smtp' req w1)) = table_of b w1 @ rows \<and>
           pending_of (read_status b (snd (callback smtp' req w1))) =
             remove1 rid (pending_of (read_status b w1))"
proof -
  from assms obtain rid payload rows where
    h: "header_request_id req = Some rid" "rid \<noteq> []" and p: "body req = Inr payload"
    and f: "find_batch_by_request rid w = Some b" "b \<noteq> []"
    and r: "flatten_callback_payload payload = Inr rows"
    and w1: "w1 = update_status smtp b rid
                    (append_results_csv b rows (append_results_json b rid payload w))"
    by (rule callback_accepted_cases)
  have f1: "find_batch_by_request rid w1 = Some b"
    using f w1 by (simp add: find_batch_by_request_def)
  let ?w2 = "update_status smtp' b rid
               (append_results_csv b rows (append_results_json b rid payload w1))"
  have c2: "callback smtp' req w1 = (Accepted_batch b, ?w2)"
    using h p f1 f(2) r by (rule callback_accepted)
  from append_results_json_records [of b rid payload w] obtain data p' where
    "results_json w1 b = Some data" "data rid = Some p'"
    by (auto simp: w1)
  then have j: "results_json (append_results_json b rid payload w1) = results_json w1"
    by (rule append_results_json_present)
  have t: "table_of b ?w2 = table_of b w1 @ rows"
  proof -
    have "table_of b ?w2 = table_of b (append_results_csv b rows (append_results_json b rid payload w1))"
      by (rule table_of_cong) simp
    also have "\<dots> = table_of b (append_results_json b rid payload w1) @ rows"
      by (rule table_of_append)
    also have "table_of b (append_results_json b rid payload w1) = table_of b w1"
      by (rule table_of_cong) simp
    finally show ?thesis .
  qed
  from h p r c2 j t show ?thesis
    by (simp add: update_status_read)
qed

theorem redelivery_handled_again_witness:
  "callback smtp_ok d1 world1 = (Accepted_batch ''b1'', world1_once) \<and>
   fst (callback smtp_ok d1 world1_once) = Accepted_batch ''b1'' \<and>
   results_json world1_twice = results_json world1_once \<and>
   received_of (read_status ''b1'' world1_twice) = received_of (read_status ''b1'' world1_once) + 1"
proof -
  have a: "callback smtp_ok d1 world1 = (Accepted_batch ''b1'', world1_once)"
    using world1_once_eval(1) by (simp add: world1_once_def prod_eq_iff)
  from redelivery_handled_again [OF a, of smtp_ok] a show ?thesis
    by (auto simp: world1_twice_def)
qed


subsection \<open>Completion\<close>

text \<open>
  Claim C2, as stated, fails: once nothing is pending, every further delivery for the
  batch marks it complete and mails the results again. The callback of a batch of one,
  delivered twice, invokes the notifier twice.
\<close>

theorem redelivery_mails_twice:
  "outbox world1_once = [ResultEmail ''ada@x.org'' ''b1''] \<and>
   outbox world1_twice = [ResultEmail ''ada@x.org'' ''b1'', ResultEmail ''ada@x.org'' ''b1''] \<and>
   result_mails ''b1'' (deliver [(smtp_ok, d1), (smtp_ok, d1)] world1) = 2"
  by (simp add: world1_twice_def world1_once_def world1_def d1_def world_eval)

lemma update_status_mails_exact:
  "result_mails b (update_status smtp b rid w) =
     result_mails b w +
     (if remove1 rid (pending_of (read_status b w)) = [] \<and> has_address (read_status b w) \<and>
         results_csv w b \<noteq> None
      then 1 else 0)"
  by (auto simp: update_status_def Let_def result_mails_def has_address_def
      split: option.splits)

lemma callback_mails_exact:
  "result_mails b (snd (callback smtp req w)) =
     result_mails b w +
     (if fst (callback smtp req w) = Accepted_batch b \<and>
         pending_of (read_status b (snd (callback smtp req w))) = [] \<and>
         has_address (read_status b (snd (callback smtp req w))) \<and>
         results_csv (snd (callback smtp req w)) b \<noteq> None
      then 1 else 0)"
proof (cases req w rule: callback_cases)
  case no_header
  then show ?thesis by (simp add: callback_no_header)
next
  case (bad_body rid msg)
  then show ?thesis by (simp add: callback_bad_body)
next
  case (unknown rid payload)
  then show ?thesis by (simp add: callback_unknown)
next
  case (raises rid payload b' e)
  then show ?thesis by (simp add: callback_flatten_raises)
next
  case (accepted rid payload b' rows)
  let ?w1 = "append_results_csv b' rows (append_results_json b' rid payload w)"
  have c: "callback smtp req w = (Accepted_batch b', update_status smtp b' rid ?w1)"
    using accepted by (simp add: callback_accepted)
  show ?thesis
  proof (cases "b' = b")
    case False
    then show ?thesis by (simp add: c update_status_mails(2))
  next
    case True
    have "has_address (read_status b (update_status smtp b rid ?w1)) =
          has_address (read_status b ?w1)"
      by (simp add: has_address_def update_status_read)
    moreover have "results_csv (update_status smtp b rid ?w1) b = results_csv ?w1 b"
      by simp
    moreover note update_status_mails_exact [of b smtp rid ?w1]
    ultimately show ?thesis
      using True by (simp add: c update_status_read)
  qed
qed

text \<open>
  Claim C2, amended: along every sequence of callbacks, handled one after the other
  with no submission in between, a batch goes from not complete to complete at most
  once. A delivery invokes the Completion Notifier for a batch exactly when it is
  acknowledged for the batch and leaves its pending list empty while its record names an
  address and its result table exists, whether or not the batch was complete before; so
  along a sequence without redelivery for the batch (the request ids of the deliveries
  handled for it are pairwise distinct and pending) the notifier is invoked at most once
  for it.
\<close>

theorem completes_at_most_once:
  "completions b (trace ds w) \<le> 1 \<and>
   (no_redelivery b ds w \<longrightarrow> result_mails b (deliver ds w) \<le> result_mails b w + 1) \<and>
   result_mails b (snd (callback smtp req w)) =
     result_mails b w +
     (if fst (callback smtp req w) = Accepted_batch b \<and>
         pending_of (read_status b (snd (callback smtp req w))) = [] \<and>
         has_address (read_status b (snd (callback smtp req w))) \<and>
         results_csv (snd (callback smtp req w)) b \<noteq> None
      then 1 else 0)"
  using completions_le_1 [of b ds w] deliver_mails_once [of b ds w]
    callback_mails_exact [of b smtp req w]
  by simp

theorem completes_at_most_once_witness:
  "no_redelivery ''b1'' [(smtp_ok, d2), (smtp_ok, d1)] world2 \<and>
   result_mails ''b1'' world2 = 0 \<and>
   result_mails ''b1'' (deliver [(smtp_ok, d2), (smtp_ok, d1)] world2) = 1 \<and>
   completions ''b1'' (trace [(smtp_ok, d2), (smtp_ok, d1)] world2) = 1 \<and>
   result_mails ''b1'' (deliver [(smtp_ok, d2), (smtp_ok, d1)] world2) \<le> result_mails ''b1'' world2 + 1 \<and>
   fst (callback smtp_ok d1 world1_once) = Accepted_batch ''b1'' \<and>
   pending_of (read_status ''b1'' world1_twice) = [] \<and>
   has_address (read_status ''b1'' world1_twice) \<and>
   results_csv world1_twice ''b1'' \<noteq> None \<and>
   result_mails ''b1'' world1_twice = result_mails ''b1'' world1_once + 1"
proof -
  have n: "no_redelivery ''b1'' [(smtp_ok, d2), (smtp_ok, d1)] world2"
    by (simp add: no_redelivery_def batch_tokens_def resolve_delivery_def world2_def d1_def d2_def
        world_eval)
  have e: "result_mails ''b1'' world2 = 0"
    "result_mails ''b1'' (deliver [(smtp_ok, d2), (smtp_ok, d1)] world2) = 1"
    "completions ''b1'' (trace [(smtp_ok, d2), (smtp_ok, d1)] world2) = 1"
    by (simp_all add: world2_def d1_def d2_def is_complete_def world_eval)
  have t: "fst (callback smtp_ok d1 world1_once) = Accepted_batch ''b1''"
    "pending_of (read_status ''b1'' world1_twice) = []"
    "has_address (read_status ''b1'' world1_twice)"
    "results_csv world1_twice ''b1'' \<noteq> None"
    by (simp_all add: world1_twice_def world1_once_def world1_def d1_def has_address_def
        world_eval)
  from completes_at_most_once
    [of "''b1''" "[(smtp_ok, d2), (smtp_ok, d1)]" world2 smtp_ok d1]
    completes_at_most_once [of "''b1''" "[]" world1_once smtp_ok d1] n e t
  show ?thesis by (simp add: world1_twice_def [symmetric])
qed

subsection \<open>The received count\<close>

text \<open>
  Claim C3, as stated, fails: \<open>received\<close> grows with every delivery handled for the
  batch. After the callback of a batch of one came twice, \<open>received\<close> is two.
\<close>

theorem redelivery_exceeds_total:
  "st_total_items (read_status ''b1'' world1_twice) = Some 1 \<and>
   received_of (read_status ''b1'' world1_twice) +
     callback_errors (read_status ''b1'' world1_twice) = 2"
  by (simp add: world1_twice_def world1_once_def world1_def d1_def callback_errors_def world_eval)

text \<open>
  Claim C3, amended: for a batch whose record has \<open>received\<close>, callback errors and
  pending ids together within the total item count, as it is after submission, every
  state reached by callbacks without redelivery for the batch has \<open>received\<close> plus the
  callback errors within the total item count, which the callbacks leave as it was.
\<close>

theorem received_within_total:
  assumes "no_redelivery b ds w"
    and "st_total_items (read_status b w) = Some n"
    and "received_of (read_status b w) + callback_errors (read_status b w) +
           int (length (pending_of (read_status b w))) \<le> int n"
  shows "received_of (read_status b (deliver ds w)) +
           callback_errors (read_status b (deliver ds w)) \<le> int n \<and>
         st_total_items (read_status b (deliver ds w)) = Some n"
proof -
  from assms(1) have "length (batch_tokens b ds w) \<le> length (pending_of (read_status b w))"
    unfolding no_redelivery_def by (auto intro: distinct_subset_length)
  with deliver_measure [of b ds w] assms(2,3) show ?thesis by simp
qed

theorem received_within_total_witness:
  "no_redelivery ''b1'' [(smtp_ok, d2), (smtp_ok, d1)] world2 \<and>
   st_total_items (read_status ''b1'' world2) = Some 2 \<and>
   received_of (read_status ''b1'' world2) + callback_errors (read_status ''b1'' world2) +
     int (length (pending_of (read_status ''b1'' world2))) \<le> 2 \<and>
   received_of (read_status ''b1'' (deliver [(smtp_ok, d2), (smtp_ok, d1)] world2)) = 2 \<and>
   received_of (read_status ''b1'' (deliver [(smtp_ok, d2), (smtp_ok, d1)] world2)) +
     callback_errors (read_status ''b1'' (deliver [(smtp_ok, d2), (smtp_ok, d1)] world2)) \<le> 2"
proof -
  have n: "no_redelivery ''b1'' [(smtp_ok, d2), (smtp_ok, d1)] world2"
    by (simp add: no_redelivery_def batch_tokens_def resolve_delivery_def world2_def d1_def d2_def
        world_eval)
  have t: "st_total_items (read_status ''b1'' world2) = Some 2"
    by (simp add: world2_def world_eval)
  have i: "received_of (read_status ''b1'' world2) + callback_errors (read_status ''b1'' world2) +
     int (length (pending_of (read_status ''b1'' world2))) \<le> int 2"
    by (simp add: world2_def callback_errors_def world_eval)
  have r: "received_of (read_status ''b1'' (deliver [(smtp_ok, d2), (smtp_ok, d1)] world2)) = 2"
    by (simp add: world2_def d1_def d2_def world_eval)
  from received_within_total [OF n t i] n t i r show ?thesis by simp
qed


subsection \<open>Deliveries that are not handled for any batch\<close>




text \<open>
  Claim C5, as stated, fails: a body that does not parse raises in the handler's
  \<open>try\<close> block, and the handler of \<open>except Exception\<close> answers with status 500 after
  recording the error on the batch the request id resolves to.
\<close>

theorem bad_body_recorded:
  "fst (callback smtp_ok d_bad world1) =
     HTTPException 500 ''Expecting value: line 1 column 1 (char 0)'' \<and>
   errors_of (read_status ''b1'' world1) = [] \<and>
   errors_of (read_status ''b1'' (snd (callback smtp_ok d_bad world1))) =
     [CallbackError ''Expecting value: line 1 column 1 (char 0)''] \<and>
   outbox (snd (callback smtp_ok d_bad world1)) =
     [ErrorEmail ''ada@x.org'' ''b1'' ''Expecting value: line 1 column 1 (char 0)'']"
  by (simp add: d_bad_def world1_def callback_except_def world_eval)

lemma callback_except_outbox:
  assumes "find_batch_by_request rid w = Some b" "b \<noteq> []"
  shows "outbox (callback_except rid e w) =
           (case st_email (read_status b w) of
              None \<Rightarrow> outbox w
            | Some a \<Rightarrow> if a = [] then outbox w else outbox w @ [ErrorEmail a b (exc_str e)])"
  using assms by (simp add: callback_except_def Let_def split: option.splits)

text \<open>
  Claim C5, amended: a delivery without the correlation token is rejected with the client
  error 400 and changes nothing. A delivery with a token whose body does not parse is
  rejected with the server error 500; the Correlation Index, the ledgers, the result
  tables and the uploaded files stay as they are. When the token resolves to no batch,
  nothing changes at all; when it resolves to a batch, every other batch record stays as
  it is, the error list of that batch gets one callback error with the decoder's
  message, and one error mail goes out exactly when the record of that batch has a
  non-empty address.
\<close>

theorem malformed_delivery_rejected:
  "(header_request_id req = None \<or> header_request_id req = Some [] \<longrightarrow>
      callback smtp req w = (HTTPException 400 ''Missing Request-Id header'', w)) \<and>
   (header_request_id req = Some rid \<and> rid \<noteq> [] \<and> body req = Inl msg \<longrightarrow>
      fst (callback smtp req w) = HTTPException 500 msg \<and>
      requests (snd (callback smtp req w)) = requests w \<and>
      results_json (snd (callback smtp req w)) = results_json w \<and>
      results_csv (snd (callback smtp req w)) = results_csv w \<and>
      original_csv (snd (callback smtp req w)) = original_csv w \<and>
      (resolve_delivery req w = None \<longrightarrow> snd (callback smtp req w) = w) \<and>
      (\<forall>b. resolve_delivery req w \<noteq> Some b \<longrightarrow>
         status_files (snd (callback smtp req w)) b = status_files w b) \<and>
      (\<forall>b. resolve_delivery req w = Some b \<longrightarrow>
         read_status b (snd (callback smtp req w)) =
           (read_status b w)\<lparr>st_errors :=
              Some (errors_of (read_status b w) @ [CallbackError msg])\<rparr> \<and>
         outbox (snd (callback smtp req w)) =
           (case st_email (read_status b w) of
              None \<Rightarrow> outbox w
            | Some a \<Rightarrow> if a = [] then outbox w else outbox w @ [ErrorEmail a b msg])))"
proof (intro conjI impI)
  assume "header_request_id req = None \<or> header_request_id req = Some []"
  then show "callback smtp req w = (HTTPException 400 ''Missing Request-Id header'', w)"
    by (rule callback_no_header)
next
  assume a: "header_request_id req = Some rid \<and> rid \<noteq> [] \<and> body req = Inl msg"
  then have c: "callback smtp req w =
      (HTTPException 500 msg, callback_except rid (JSONDecodeError msg) w)"
    by (simp add: callback_bad_body)
  show "fst (callback smtp req w) = HTTPException 500 msg" by (simp add: c)
  show "requests (snd (callback smtp req w)) = requests w" by simp
  show "results_json (snd (callback smtp req w)) = results_json w" by (simp add: c)
  show "results_csv (snd (callback smtp req w)) = results_csv w" by (simp add: c)
  show "original_csv (snd (callback smtp req w)) = original_csv w" by simp
  show "snd (callback smtp req w) = w" if "resolve_delivery req w = None"
  proof -
    from that a have "find_batch_by_request rid w = None \<or> find_batch_by_request rid w = Some []"
      by (auto simp: resolve_delivery_def split: option.splits if_splits)
    from callback_except_unresolved [OF this] show ?thesis by (simp add: c)
  qed
  show "\<forall>b. resolve_delivery req w \<noteq> Some b \<longrightarrow>
         status_files (snd (callback smtp req w)) b = status_files w b"
    using callback_other(1) by blast
  show "\<forall>b. resolve_delivery req w = Some b \<longrightarrow>
         read_status b (snd (callback smtp req w)) =
           (read_status b w)\<lparr>st_errors :=
              Some (errors_of (read_status b w) @ [CallbackError msg])\<rparr> \<and>
         outbox (snd (callback smtp req w)) =
           (case st_email (read_status b w) of
              None \<Rightarrow> outbox w
            | Some a \<Rightarrow> if a = [] then outbox w else outbox w @ [ErrorEmail a b msg])"
  proof (intro allI impI)
    fix b
    assume "resolve_delivery req w = Some b"
    with a have f: "find_batch_by_request rid w = Some b" "b \<noteq> []"
      by (auto dest: resolve_delivery_find)
    from callback_except_read [OF f] callback_except_outbox [OF f]
    show "read_status b (snd (callback smtp req w)) =
           (read_status b w)\<lparr>st_errors :=
              Some (errors_of (read_status b w) @ [CallbackError msg])\<rparr> \<and>
         outbox (snd (callback smtp req w)) =
           (case st_email (read_status b w) of
              None \<Rightarrow> outbox w
            | Some a \<Rightarrow> if a = [] then outbox w else outbox w @ [ErrorEmail a b msg])"
      by (simp add: c split: option.splits)
  qed
qed

theorem malformed_delivery_rejected_witness:
  "header_request_id d_bad = Some ''r1'' \<and>
   body d_bad = Inl ''Expecting value: line 1 column 1 (char 0)'' \<and>
   resolve_delivery d_bad world1 = Some ''b1'' \<and>
   fst (callback smtp_ok d_bad world1) =
     HTTPException 500 ''Expecting value: line 1 column 1 (char 0)'' \<and>
   results_csv (snd (callback smtp_ok d_bad world1)) = results_csv world1 \<and>
   read_status ''b1'' (snd (callback smtp_ok d_bad world1)) =
     (read_status ''b1'' world1)\<lparr>st_errors :=
        Some (errors_of (read_status ''b1'' world1) @
              [CallbackError ''Expecting value: line 1 column 1 (char 0)''])\<rparr> \<and>
   outbox (snd (callback smtp_ok d_bad world1)) =
     [ErrorEmail ''ada@x.org'' ''b1'' ''Expecting value: line 1 column 1 (char 0)''] \<and>
   resolve_delivery d_stray_bad world1 = None \<and>
   snd (callback smtp_ok d_stray_bad world1) = world1 \<and>
   header_request_id (d_bad\<lparr>header_request_id := None\<rparr>) = None \<and>
   callback smtp_ok (d_bad\<lparr>header_request_id := None\<rparr>) world1 =
     (HTTPException 400 ''Missing Request-Id header'', world1)"
proof -
  have h: "header_request_id d_bad = Some ''r1''"
    "body d_bad = Inl ''Expecting value: line 1 column 1 (char 0)''"
    "resolve_delivery d_bad world1 = Some ''b1''"
    "header_request_id d_stray_bad = Some ''r9''"
    "body d_stray_bad = Inl ''Expecting value: line 1 column 1 (char 0)''"
    "resolve_delivery d_stray_bad world1 = None"
    by (simp_all add: d_bad_def d_stray_bad_def resolve_delivery_def world1_def world_eval)
  have e: "st_email (read_status ''b1'' world1) = Some ''ada@x.org''" "outbox world1 = []"
    by (simp_all add: world1_def world_eval)
  from malformed_delivery_rejected
    [where req = d_bad and rid = "''r1''" and smtp = smtp_ok and w = world1
       and msg = "''Expecting value: line 1 column 1 (char 0)''"]
    malformed_delivery_rejected
    [where req = d_stray_bad and rid = "''r9''" and smtp = smtp_ok and w = world1
       and msg = "''Expecting value: line 1 column 1 (char 0)''"]
    malformed_delivery_rejected
    [where req = "d_bad\<lparr>header_request_id := None\<rparr>" and rid = "''r1''" and smtp = smtp_ok
       and w = world1 and msg = "[]"]
    h e
  show ?thesis by simp
qed

subsection \<open>The Correlation Index under later operations\<close>






section \<open>Properties of the submission\<close>

subsection \<open>The submission loop\<close>

lemma upload_step_status [simp]:
  "status_files (fst (upload_step b url resp ws)) = status_files (fst ws)"
  by (simp add: upload_step_def Let_def map_request_to_batch_def split: option.splits)

lemma upload_loop_status [simp]:
  "status_files (fst (upload_loop submit b k urls ws)) = status_files (fst ws)"
  by (induction urls arbitrary: k ws) simp_all

lemma pending_of_submissions [simp]:
  "pending_of (st\<lparr>st_submissions := x\<rparr>) = pending_of st"
  by (simp add: pending_of_def)





lemma upload_world:
  assumes "parse_urls rows \<noteq> []"
  shows "snd (upload now submit content rows user_email w) =
         write_status (new_batch_id now)
           (snd (upload_loop submit (new_batch_id now) 0 (parse_urls rows)
                   (save_original_csv (new_batch_id now) content w,
                    initial_status user_email (length (parse_urls rows)))))
           (fst (upload_loop submit (new_batch_id now) 0 (parse_urls rows)
                   (save_original_csv (new_batch_id now) content w,
                    initial_status user_email (length (parse_urls rows)))))"
  using assms by (simp add: upload_def Let_def)

lemma upload_step_counts:
  "length (pending_of (snd (upload_step b url resp ws))) \<le> Suc (length (pending_of (snd ws))) \<and>
   received_of (snd (upload_step b url resp ws)) = received_of (snd ws) \<and>
   callback_errors (snd (upload_step b url resp ws)) = callback_errors (snd ws) \<and>
   st_total_items (snd (upload_step b url resp ws)) = st_total_items (snd ws)"
  by (simp add: upload_step_def Let_def pending_of_def received_of_def callback_errors_def
      errors_of_def split: option.splits)

lemma upload_loop_counts:
  "length (pending_of (snd (upload_loop submit b k urls ws)))
     \<le> length (pending_of (snd ws)) + length urls \<and>
   received_of (snd (upload_loop submit b k urls ws)) = received_of (snd ws) \<and>
   callback_errors (snd (upload_loop submit b k urls ws)) = callback_errors (snd ws) \<and>
   st_total_items (snd (upload_loop submit b k urls ws)) = st_total_items (snd ws)"
proof (induction urls arbitrary: k ws)
  case Nil
  then show ?case by simp
next
  case (Cons url urls)
  from Cons.IH [of "Suc k" "upload_step b url (submit k url) ws"]
    upload_step_counts [of b url "submit k url" ws]
  show ?case by simp
qed

text \<open>
  What a submission leaves behind: nothing received, no callback error, and no more
  pending ids than items.
\<close>

lemma upload_status_counts:
  assumes "parse_urls rows \<noteq> []"
  shows "st_total_items (read_status (new_batch_id now)
           (snd (upload now submit content rows user_email w))) = Some (length (parse_urls rows)) \<and>
         received_of (read_status (new_batch_id now)
           (snd (upload now submit content rows user_email w))) +
         callback_errors (read_status (new_batch_id now)
           (snd (upload now submit content rows user_email w))) +
         int (length (pending_of (read_status (new_batch_id now)
           (snd (upload now submit content rows user_email w)))))
           \<le> int (length (parse_urls rows))"
  using upload_loop_counts [of submit "new_batch_id now" 0 "parse_urls rows"
      "(save_original_csv (new_batch_id now) content w,
        initial_status user_email (length (parse_urls rows)))"]
  by (simp add: upload_world [OF assms] initial_status_def pending_of_def received_of_def
      callback_errors_def errors_of_def)






end
